theory Spec2Isabelle
  imports Main "HOL-Library.AList" "HOL-Library.Sublist"
begin

section \<open>Axis values\<close>

text \<open>
  \<^verbatim>\<open>class BuildItem\<close> (pycmake.py): an axis value carries a name, and both
  \<^verbatim>\<open>__repr__\<close> and \<^verbatim>\<open>__str__\<close> return it. System, Architecture, BuildType and
  Variant add nothing the tag computation reads. A Compiler also carries
  \<^verbatim>\<open>is_msvc\<close> (\<^verbatim>\<open>shortname.startswith('vs')\<close>), its \<^verbatim>\<open>path\<close> and the path
  of the C compiler.
\<close>

record BuildItem =
  name :: string

record Compiler = BuildItem +
  is_msvc :: bool
  path :: string
  c_compiler :: string

definition str :: "'a BuildItem_scheme \<Rightarrow> string" where
  "str x = name x"

text \<open>
  A flag set as \<^verbatim>\<open>Build._gather_flags\<close> and \<^verbatim>\<open>Build._gather_cmake_vars\<close> read it.
  The flag classes themselves are not among the sources: \<open>cflags\<close> and \<open>cxxflags\<close>
  hold, for each flag \<open>f\<close>, the string \<^verbatim>\<open>f.get(self.compiler)\<close>.
\<close>

record flagset =
  cflags :: "string list"
  cxxflags :: "string list"
  fdefines :: "string list"
  cmake_vars :: "string list"

section \<open>The tag of a build\<close>

subsection \<open>c4.cmany.build.Build\<close>

text \<open>
  The attributes of \<^verbatim>\<open>Build\<close> (build.py). \<open>varcache\<close> and \<open>generator\<close> are
  references into the store (the objects are shared by a shallow copy and mutated in
  place); \<open>deps\<close> and \<open>deps_prefix\<close> are \<open>None\<close> or a string; \<open>with_conan\<close> and
  \<open>export_compile\<close> are the two entries of \<^verbatim>\<open>kwargs\<close> the class reads.
\<close>

record Build =
  projdir :: string
  buildroot :: string
  installroot :: string
  flags :: flagset
  system :: BuildItem
  architecture :: BuildItem
  buildtype :: BuildItem
  compiler :: Compiler
  variant :: "BuildItem option"
  system_flags :: flagset
  architecture_flags :: flagset
  buildtype_flags :: flagset
  compiler_flags :: flagset
  variant_flags :: flagset
  adjusted :: bool
  tag :: string
  buildtag :: string
  installtag :: string
  builddir :: string
  installdir :: string
  preload_file :: string
  cachefile :: string
  generator :: nat
  varcache :: nat
  deps :: "string option"
  deps_prefix :: "string option"
  with_conan :: bool
  export_compile :: bool

text \<open>
  \<^verbatim>\<open>"{1}{0}{2}{0}{3}{0}{4}".format(sep, a, b, c, d)\<close> is \<open>a + sep + b + sep + c + sep + d\<close>;
  \<^verbatim>\<open>self.variant and self.variant.name and self.variant.name != "none"\<close> is the guard
  of the fifth component.
\<close>

definition cat :: "string \<Rightarrow> Build \<Rightarrow> string" where
  "cat sep b =
     (let s = str (system b) @ sep @ str (architecture b) @ sep @ str (compiler b)
                @ sep @ str (buildtype b)
      in case variant b of
           None \<Rightarrow> s
         | Some v \<Rightarrow> if name v \<noteq> [] \<and> name v \<noteq> ''none'' then s @ sep @ str v else s)"

text \<open>\<^verbatim>\<open>os.path.join(a, b)\<close> of posixpath, for two arguments.\<close>

definition path_join :: "string \<Rightarrow> string \<Rightarrow> string" where
  "path_join a b =
     (if b \<noteq> [] \<and> hd b = CHR ''/'' then b
      else if a = [] \<or> last a = CHR ''/'' then a @ b
      else a @ ''/'' @ b)"

definition pfile :: string where
  "pfile = ''cmany_preload.cmake''"

text \<open>
  \<^verbatim>\<open>Build._set_paths\<close>. \<open>abspath\<close> is \<^verbatim>\<open>os.path.abspath\<close>, which reads the
  process's working directory: a parameter.
\<close>

definition set_paths :: "(string \<Rightarrow> string) \<Rightarrow> Build \<Rightarrow> Build" where
  "set_paths abspath b =
     (let t = cat ''-'' b;
          bd = abspath (path_join (buildroot b) t)
      in b\<lparr>tag := t, buildtag := t, installtag := t,
            builddir := bd,
            installdir := path_join (installroot b) t,
            preload_file := path_join bd pfile,
            cachefile := path_join bd ''CMakeCache.txt''\<rparr>)"

text \<open>
  \<^verbatim>\<open>Build.adjust(**kwargs)\<close>: the two keywords it reads, each absent (\<open>None\<close>) or an
  axis value. Modelled from the spec: \<^verbatim>\<open>!=\<close> on two axis values, whose classes
  \<^verbatim>\<open>build.py\<close> takes from a module that is not among the sources (``identity = a name
  string; equality and hashing by name'').
\<close>

definition adjust :: "(string \<Rightarrow> string) \<Rightarrow> BuildItem option \<Rightarrow> Compiler option \<Rightarrow> Build \<Rightarrow> Build" where
  "adjust abspath a c b =
     (let b1 = (case a of
                  None \<Rightarrow> b
                | Some a' \<Rightarrow> if name a' \<noteq> name (architecture b)
                             then b\<lparr>adjusted := True, architecture := a'\<rparr> else b);
          b2 = (case c of
                  None \<Rightarrow> b1
                | Some c' \<Rightarrow> if name c' \<noteq> name (compiler b1)
                             then b1\<lparr>adjusted := True, compiler := c'\<rparr> else b1)
      in set_paths abspath b2)"

subsection \<open>c4.pycmake.pycmake.Build\<close>

text \<open>
  The older \<^verbatim>\<open>Build\<close> of pycmake.py, as far as \<^verbatim>\<open>_cat\<close> reads it. There
  \<^verbatim>\<open>if self.variant:\<close> tests the object only (a \<^verbatim>\<open>BuildItem\<close> defines neither
  \<^verbatim>\<open>__bool__\<close> nor \<^verbatim>\<open>__len__\<close>), so every variant that is not \<open>None\<close> is appended.
\<close>

record pycmake_Build =
  p_system :: BuildItem
  p_architecture :: BuildItem
  p_buildtype :: BuildItem
  p_compiler :: Compiler
  p_variant :: "BuildItem option"

definition pycmake_cat :: "string \<Rightarrow> bool \<Rightarrow> pycmake_Build \<Rightarrow> string" where
  "pycmake_cat sep for_build_dir b =
     (let s = (if is_msvc (p_compiler b) \<and> for_build_dir
               then str (p_system b) @ sep @ str (p_architecture b) @ sep @ str (p_compiler b)
               else str (p_system b) @ sep @ str (p_architecture b) @ sep @ str (p_compiler b)
                      @ sep @ str (p_buildtype b))
      in case p_variant b of
           None \<Rightarrow> s
         | Some v \<Rightarrow> s @ sep @ str v)"


section \<open>The configuration cache (cmake\_sysinfo.py)\<close>

subsection \<open>Errors\<close>

text \<open>
  The exceptions the modelled code can raise: \<open>TypeError\<close> (a call that lacks a
  positional argument), \<open>AttributeError\<close> (an attribute of \<open>None\<close>), \<open>IndexError\<close>,
  \<open>AssertionError\<close>, the \<^verbatim>\<open>Exception\<close> the code raises itself
  with its message, \<^verbatim>\<open>re.error\<close> (a bad replacement template), \<open>OSError\<close> (a file
  or directory operation that fails, with the path) and the failure of a child process
  (\<^verbatim>\<open>util.runsyscmd\<close>, with the command).
\<close>

datatype error =
    TypeError string
  | AttributeError string
  | IndexError string
  | AssertionError
  | Exception string
  | ReError string
  | OSError string
  | CmdFailed "string list"

subsection \<open>Variables\<close>

record Var =
  vname :: string
  val :: string
  vartype :: "string option"
  vdirty :: bool
  from_input :: bool

text \<open>
  The keyword arguments \<^verbatim>\<open>Var.reset\<close> reads: \<^verbatim>\<open>kwargs.get('force_dirty', False)\<close>
  and \<^verbatim>\<open>kwargs.get('from_input')\<close> (\<open>None\<close> when absent).
\<close>

record kwargs =
  force_dirty :: bool
  kw_from_input :: "bool option"

definition no_kwargs :: kwargs where
  "no_kwargs = \<lparr>force_dirty = False, kw_from_input = None\<rparr>"

definition from_input_kw :: kwargs where
  "from_input_kw = \<lparr>force_dirty = False, kw_from_input = Some True\<rparr>"

text \<open>\<^verbatim>\<open>Var.__init__(name, val, vartype="STRING", dirty=False, from_input=False)\<close>.\<close>

definition Var_init :: "string \<Rightarrow> string \<Rightarrow> string option \<Rightarrow> bool \<Rightarrow> Var" where
  "Var_init n v ty d = \<lparr>vname = n, val = v, vartype = ty, vdirty = d, from_input = False\<rparr>"

text \<open>\<^verbatim>\<open>Var.reset\<close>: the value it returns and the variable as it leaves it.\<close>

definition reset :: "string \<Rightarrow> string option \<Rightarrow> kwargs \<Rightarrow> Var \<Rightarrow> bool \<times> Var" where
  "reset v ty kw x =
     (let x1 = (case kw_from_input kw of None \<Rightarrow> x | Some fi \<Rightarrow> x\<lparr>from_input := fi\<rparr>)
      in if v \<noteq> val x1 \<or> ty \<noteq> vartype x1
         then (True, x1\<lparr>val := v, vartype := ty, vdirty := True\<rparr>)
         else (force_dirty kw, if force_dirty kw then x1\<lparr>vdirty := True\<rparr> else x1))"

subsection \<open>The cache\<close>

text \<open>
  \<^verbatim>\<open>class CMakeCache(odict)\<close>: the ordered dictionary as an association list in
  insertion order (\<open>AList.update\<close> replaces the value of a key in place and appends a
  new key at the end, as assignment to an \<^verbatim>\<open>OrderedDict\<close> does), and the aggregate
  \<^verbatim>\<open>dirty\<close> attribute.
\<close>

record CMakeCache =
  items :: "(string \<times> Var) list"
  dirty :: bool

definition setvar ::
  "string \<Rightarrow> string \<Rightarrow> string option \<Rightarrow> kwargs \<Rightarrow> CMakeCache \<Rightarrow> error + (bool \<times> CMakeCache)" where
  "setvar n v ty kw c =
     (case map_of (items c) n of
        Some x \<Rightarrow>
          (let (changed, x') = reset v ty kw x
           in Inr (changed, c\<lparr>items := AList.update n x' (items c),
                                dirty := (dirty c \<or> changed)\<rparr>))
      | None \<Rightarrow>
          if ty = None then Inl AssertionError
          else Inr (True, c\<lparr>items := AList.update n (Var_init n v ty True) (items c),
                              dirty := True\<rparr>))"

definition backslash :: char where
  "backslash = CHR 0x5C"

definition newline :: char where
  "newline = CHR 0x0A"

text \<open>\<^verbatim>\<open>re.sub(r'\\', r'/', val)\<close>: every backslash becomes a slash.\<close>

definition slashes :: "string \<Rightarrow> string" where
  "slashes v = map (\<lambda>c. if c = backslash then CHR ''/'' else c) v"

text \<open>
  The typed setters \<^verbatim>\<open>b\<close>, \<^verbatim>\<open>s\<close>, \<^verbatim>\<open>p\<close>, \<^verbatim>\<open>f\<close> and \<^verbatim>\<open>i\<close> (named \<open>set_b\<close> ...
  here, so that the letters stay free for variables). \<open>in_windows\<close> is \<^verbatim>\<open>util.in_windows()\<close> (util is not among the
  sources): a parameter.
\<close>

definition set_b :: "string \<Rightarrow> string \<Rightarrow> kwargs \<Rightarrow> CMakeCache \<Rightarrow> error + (bool \<times> CMakeCache)" where
  "set_b n v kw c = setvar n v (Some ''BOOL'') kw c"

definition set_s :: "string \<Rightarrow> string \<Rightarrow> kwargs \<Rightarrow> CMakeCache \<Rightarrow> error + (bool \<times> CMakeCache)" where
  "set_s n v kw c = setvar n v (Some ''STRING'') kw c"

definition set_p :: "bool \<Rightarrow> string \<Rightarrow> string \<Rightarrow> kwargs \<Rightarrow> CMakeCache \<Rightarrow> error + (bool \<times> CMakeCache)" where
  "set_p in_windows n v kw c =
     setvar n (if in_windows then slashes v else v) (Some ''PATH'') kw c"

definition set_f :: "bool \<Rightarrow> string \<Rightarrow> string \<Rightarrow> kwargs \<Rightarrow> CMakeCache \<Rightarrow> error + (bool \<times> CMakeCache)" where
  "set_f in_windows n v kw c =
     setvar n (if in_windows then slashes v else v) (Some ''FILEPATH'') kw c"

definition set_i :: "string \<Rightarrow> string \<Rightarrow> kwargs \<Rightarrow> CMakeCache \<Rightarrow> error + (bool \<times> CMakeCache)" where
  "set_i n v kw c = setvar n v (Some ''INTERNAL'') kw c"


subsection \<open>The regular expression of a cache entry\<close>

text \<open>
  \<^verbatim>\<open>_cache_entry = r'^(.*?)(:.*?)=(.*)$'\<close>. A dot matches no newline and \<open>$\<close> matches
  at the end of the string or before a newline that ends it. So the pattern matches a
  string that is free of newlines but for at most one at its end and has a colon with
  an equals sign somewhere after it: group 1 is what stands before the first colon, group 2
  runs from that colon to before the first equals sign after it, group 3 is the rest
  (without the final newline). \<open>match_cache_entry\<close> returns the three groups and the
  unmatched tail (empty, or the newline).
\<close>

definition match_cache_entry :: "string \<Rightarrow> (string \<times> string \<times> string \<times> string) option" where
  "match_cache_entry l =
     (let body = (if l \<noteq> [] \<and> last l = newline then butlast l else l);
          nl = (if l \<noteq> [] \<and> last l = newline then [newline] else [])
      in if newline \<in> set body then None
         else (case dropWhile (\<lambda>c. c \<noteq> CHR '':'') body of
                 [] \<Rightarrow> None
               | c # r2 \<Rightarrow>
                   (case dropWhile (\<lambda>c. c \<noteq> CHR ''='') r2 of
                      [] \<Rightarrow> None
                    | e # g3 \<Rightarrow>
                        Some (takeWhile (\<lambda>c. c \<noteq> CHR '':'') body,
                              c # takeWhile (\<lambda>c. c \<noteq> CHR ''='') r2, g3, nl))))"

text \<open>
  The replacement template of \<^verbatim>\<open>re.sub\<close>, as \<^verbatim>\<open>parse_template\<close> of Python's
  \<^verbatim>\<open>re\<close> reads it (Python 3.12; the versions from 3.7 on differ from it only in
  reading group names such as \<^verbatim>\<open>+1\<close> as numbers): a backslash starts a group reference
  (\<^verbatim>\<open>\1\<close>, \<^verbatim>\<open>\g<1>\<close>; the pattern has three groups and no named group), an octal
  escape, one of the escapes \<^verbatim>\<open>\a \b \f \n \r \t \v \\\<close>, an error when an ASCII
  letter follows that is none of these, or else stands for itself. A name in
  \<^verbatim>\<open>\g<name>\<close> that is not a decimal number is looked up among the named groups when
  it is an identifier (\<^verbatim>\<open>str.isidentifier\<close>, here for ASCII names), which raises
  \<open>IndexError\<close> as the pattern has none, and is an error of the template otherwise.
  \<open>gs\<close> holds the whole match and the three groups.
\<close>

definition is_digit :: "char \<Rightarrow> bool" where
  "is_digit c = (c \<in> set ''0123456789'')"

definition is_octdigit :: "char \<Rightarrow> bool" where
  "is_octdigit c = (c \<in> set ''01234567'')"

definition is_ascii_letter :: "char \<Rightarrow> bool" where
  "is_ascii_letter c =
     (c \<in> set ''abcdefghijklmnopqrstuvwxyzABCDEFGHIJKLMNOPQRSTUVWXYZ'')"

definition is_identifier :: "string \<Rightarrow> bool" where
  "is_identifier nm =
     (nm \<noteq> [] \<and> (is_ascii_letter (hd nm) \<or> hd nm = CHR ''_'')
      \<and> list_all (\<lambda>c. is_ascii_letter c \<or> is_digit c \<or> c = CHR ''_'') nm)"

definition digit_val :: "char \<Rightarrow> nat" where
  "digit_val c = of_char c - 48"

definition int_of_digits :: "nat \<Rightarrow> string \<Rightarrow> nat" where
  "int_of_digits base ds = foldl (\<lambda>n c. base * n + digit_val c) 0 ds"

definition escape :: "char \<Rightarrow> char option" where
  "escape c =
     (if c = CHR ''a'' then Some (CHR 0x07)
      else if c = CHR ''b'' then Some (CHR 0x08)
      else if c = CHR ''f'' then Some (CHR 0x0C)
      else if c = CHR ''n'' then Some (CHR 0x0A)
      else if c = CHR ''r'' then Some (CHR 0x0D)
      else if c = CHR ''t'' then Some (CHR 0x09)
      else if c = CHR ''v'' then Some (CHR 0x0B)
      else if c = backslash then Some backslash
      else None)"

definition emit :: "string \<Rightarrow> error + string \<Rightarrow> error + string" where
  "emit xs r = (case r of Inl e \<Rightarrow> Inl e | Inr ys \<Rightarrow> Inr (xs @ ys))"

function expand_template :: "string list \<Rightarrow> string \<Rightarrow> error + string" where
  "expand_template gs [] = Inr []"
| "expand_template gs (c # cs) =
     (if c \<noteq> backslash then emit [c] (expand_template gs cs)
      else case cs of
        [] \<Rightarrow> Inl (ReError ''bad escape (end of pattern)'')
      | d # ds \<Rightarrow>
          if d = CHR ''g'' then
            (case ds of
               [] \<Rightarrow> Inl (ReError ''missing <'')
             | l # ns \<Rightarrow>
                 if l \<noteq> CHR ''<'' then Inl (ReError ''missing <'')
                 else if CHR ''>'' \<notin> set ns then Inl (ReError ''missing >, unterminated name'')
                 else if takeWhile (\<lambda>x. x \<noteq> CHR ''>'') ns = [] then Inl (ReError ''missing group name'')
                 else if \<not> list_all is_digit (takeWhile (\<lambda>x. x \<noteq> CHR ''>'') ns)
                 then (if is_identifier (takeWhile (\<lambda>x. x \<noteq> CHR ''>'') ns)
                       then Inl (IndexError (''unknown group name ''
                                   @ takeWhile (\<lambda>x. x \<noteq> CHR ''>'') ns))
                       else Inl (ReError ''bad character in group name''))
                 else if int_of_digits 10 (takeWhile (\<lambda>x. x \<noteq> CHR ''>'') ns) > 3
                 then Inl (ReError ''invalid group reference'')
                 else emit (gs ! int_of_digits 10 (takeWhile (\<lambda>x. x \<noteq> CHR ''>'') ns))
                        (expand_template gs (tl (dropWhile (\<lambda>x. x \<noteq> CHR ''>'') ns))))
          else if d = CHR ''0'' then
            (case ds of
               [] \<Rightarrow> Inr [CHR 0x00]
             | o1 # r1 \<Rightarrow>
                 if \<not> is_octdigit o1 then emit [CHR 0x00] (expand_template gs ds)
                 else (case r1 of
                         [] \<Rightarrow> Inr [char_of (digit_val o1)]
                       | o2 # r2 \<Rightarrow>
                           if \<not> is_octdigit o2
                           then emit [char_of (digit_val o1)] (expand_template gs r1)
                           else emit [char_of ((8 * digit_val o1 + digit_val o2) mod 256)]
                                  (expand_template gs r2)))
          else if is_digit d then
            (case ds of
               [] \<Rightarrow> if digit_val d > 3 then Inl (ReError ''invalid group reference'')
                     else Inr (gs ! digit_val d)
             | d2 # r1 \<Rightarrow>
                 if \<not> is_digit d2
                 then (if digit_val d > 3 then Inl (ReError ''invalid group reference'')
                       else emit (gs ! digit_val d) (expand_template gs ds))
                 else (case r1 of
                         [] \<Rightarrow> Inl (ReError ''invalid group reference'')
                       | d3 # r2 \<Rightarrow>
                           if is_octdigit d \<and> is_octdigit d2 \<and> is_octdigit d3
                           then (if int_of_digits 8 [d, d2, d3] > 255
                                 then Inl (ReError ''octal escape value outside of range 0-0o377'')
                                 else emit [char_of (int_of_digits 8 [d, d2, d3])]
                                        (expand_template gs r2))
                           else Inl (ReError ''invalid group reference'')))
          else (case escape d of
                  Some e \<Rightarrow> emit [e] (expand_template gs ds)
                | None \<Rightarrow>
                    if is_ascii_letter d then Inl (ReError (''bad escape '' @ [backslash, d]))
                    else emit [backslash, d] (expand_template gs ds)))"
  by pat_completeness auto
termination
proof (relation "measure (\<lambda>(gs, t). length t)", goal_cases)
  case (3 gs c cs d ds l ns)
  have "length (dropWhile (\<lambda>x. x \<noteq> CHR ''>'') ns) \<le> length ns"
    by (rule length_dropWhile_le)
  with 3 show ?case by simp
qed auto

text \<open>
  \<^verbatim>\<open>re.sub(_cache_entry, repl, l)\<close>. A template with a backslash is compiled before
  the search, so its errors are raised whether the pattern matches or not; the pattern
  is anchored, so it matches at most once.
\<close>

definition re_sub :: "string \<Rightarrow> string \<Rightarrow> error + string" where
  "re_sub repl l =
     (case match_cache_entry l of
        None \<Rightarrow> (case expand_template [[], [], [], []] repl of
                   Inl e \<Rightarrow> Inl e | Inr _ \<Rightarrow> Inr l)
      | Some (g1, g2, g3, nl) \<Rightarrow>
          (case expand_template [g1 @ g2 @ ''='' @ g3, g1, g2, g3] repl of
             Inl e \<Rightarrow> Inl e | Inr t \<Rightarrow> Inr (t @ nl)))"


subsection \<open>Files\<close>

text \<open>
  The file system as the code sees it: the directories that exist and the text of the
  files that exist, by path. Paths are identifiers: \<^verbatim>\<open>Build\<close> makes its
  directories absolute (\<^verbatim>\<open>os.path.abspath\<close>), and a name opened inside
  \<^verbatim>\<open>with setcwd(d)\<close> is \<open>path_join d name\<close>. The text of a file is what text mode
  reads and writes.
\<close>

record fs =
  dirs :: "string set"
  files :: "string \<rightharpoonup> string"

definition path_exists :: "fs \<Rightarrow> string \<Rightarrow> bool" where
  "path_exists fsys q = (q \<in> dirs fsys \<or> files fsys q \<noteq> None)"

text \<open>\<^verbatim>\<open>f.readlines()\<close>: the lines of a text, each with the newline that ends it.\<close>

fun readlines :: "string \<Rightarrow> string list" where
  "readlines [] = []"
| "readlines (c # cs) =
     (if c = newline then [c] # readlines cs
      else (case readlines cs of [] \<Rightarrow> [[c]] | l # ls \<Rightarrow> (c # l) # ls))"

text \<open>
  \<^verbatim>\<open>setcachevars(builddir, varvalues)\<close>. The inner loop over \<^verbatim>\<open>varvalues.items()\<close>
  is \<open>rewrite_line\<close>, the outer loop over the lines is \<open>rewrite_lines\<close>. Entering
  \<^verbatim>\<open>with setcwd(builddir, silent=True)\<close> from another directory is as
  \<^verbatim>\<open>cwd_back.__enter__\<close> of pycmake.py has it (\<^verbatim>\<open>util.setcwd\<close> itself is not among
  the sources): \<^verbatim>\<open>chkf\<close> raises an \<^verbatim>\<open>Exception\<close> for a path that does not exist
  (its message goes on with the working directory of the process, which is left out
  here), and \<^verbatim>\<open>os.chdir\<close> raises an \<open>OSError\<close> for a path that is not a directory.
  \<^verbatim>\<open>commit\<close> tests both paths before it calls.
\<close>

fun rewrite_line :: "(string \<times> string) list \<Rightarrow> string \<Rightarrow> error + string" where
  "rewrite_line [] l = Inr l"
| "rewrite_line ((k, v) # kvs) l =
     (if prefix (k @ '':'') l
      then (case re_sub ([backslash, CHR ''1'', backslash, CHR ''2'', CHR ''=''] @ v) l of
              Inl e \<Rightarrow> Inl e
            | Inr n \<Rightarrow> rewrite_line kvs n)
      else rewrite_line kvs l)"

fun rewrite_lines :: "(string \<times> string) list \<Rightarrow> string list \<Rightarrow> error + string list" where
  "rewrite_lines kvs [] = Inr []"
| "rewrite_lines kvs (l # ls) =
     (case rewrite_line kvs l of
        Inl e \<Rightarrow> Inl e
      | Inr n \<Rightarrow> (case rewrite_lines kvs ls of
                    Inl e \<Rightarrow> Inl e
                  | Inr ns \<Rightarrow> Inr (n # ns)))"

definition setcachevars :: "string \<Rightarrow> (string \<times> string) list \<Rightarrow> fs \<Rightarrow> error + fs" where
  "setcachevars d varvalues fsys =
     (if \<not> path_exists fsys d then Inl (Exception (''path does not exist: '' @ d))
      else if d \<notin> dirs fsys then Inl (OSError d)
      else case files fsys (path_join d ''CMakeCache.txt'') of
        None \<Rightarrow> Inl (OSError (path_join d ''CMakeCache.txt''))
      | Some text \<Rightarrow>
          (case rewrite_lines varvalues (readlines text) of
             Inl e \<Rightarrow> Inl e
           | Inr olines \<Rightarrow>
               Inr (fsys\<lparr>files := (files fsys)(path_join d ''CMakeCache.txt'' \<mapsto> concat olines)\<rparr>)))"

text \<open>
  \<^verbatim>\<open>CMakeCache.commit(builddir)\<close>. \<open>dirty_values\<close> is the dictionary \<^verbatim>\<open>tmp\<close> of the
  dirty variables' values. An exception leaves cache and files as they were: the only
  one possible is raised inside \<^verbatim>\<open>setcachevars\<close> before the file is opened for
  writing.
\<close>

definition dirty_values :: "CMakeCache \<Rightarrow> (string \<times> string) list" where
  "dirty_values c =
     foldl (\<lambda>tmp (k, x). if vdirty x then AList.update (vname x) (val x) tmp else tmp)
       [] (items c)"

definition commit :: "string option \<Rightarrow> CMakeCache \<Rightarrow> fs \<Rightarrow> error + (bool \<times> CMakeCache \<times> fs)" where
  "commit bd c fsys =
     (if \<not> dirty c then Inr (False, c, fsys)
      else case bd of
        None \<Rightarrow> Inr (False, c, fsys)
      | Some d \<Rightarrow>
          if \<not> path_exists fsys d then Inr (False, c, fsys)
          else if \<not> path_exists fsys (path_join d ''CMakeCache.txt'') then Inr (False, c, fsys)
          else (case setcachevars d (dirty_values c) fsys of
                  Inl e \<Rightarrow> Inl e
                | Inr fsys' \<Rightarrow>
                    Inr (True,
                         c\<lparr>items := map (\<lambda>(k, x). (k, x\<lparr>vdirty := False\<rparr>)) (items c),
                           dirty := False\<rparr>,
                         fsys')))"

subsection \<open>Loading\<close>

text \<open>\<^verbatim>\<open>str.strip()\<close>: white space off both ends.\<close>

definition is_space :: "char \<Rightarrow> bool" where
  "is_space c =
     (c \<in> {CHR 0x09, CHR 0x0A, CHR 0x0B, CHR 0x0C, CHR 0x0D, CHR 0x1C, CHR 0x1D, CHR 0x1E,
            CHR 0x1F, CHR 0x20, CHR 0x85, CHR 0xA0})"

definition strip :: "string \<Rightarrow> string" where
  "strip l = rev (dropWhile is_space (rev (dropWhile is_space l)))"

text \<open>
  One pass of the loop of \<^verbatim>\<open>loadvars\<close> over a line, and \<^verbatim>\<open>loadvars\<close>.
  \<^verbatim>\<open>[1:]\<close> is \<open>drop 1\<close>.
\<close>

definition load_line :: "error + (string \<times> Var) list \<Rightarrow> string \<Rightarrow> error + (string \<times> Var) list" where
  "load_line r l =
     (case r of
        Inl e \<Rightarrow> Inl e
      | Inr v \<Rightarrow>
          if match_cache_entry l = None then Inr v
          else (case re_sub [backslash, CHR ''1''] (strip l) of
                  Inl e \<Rightarrow> Inl e
                | Inr n \<Rightarrow>
                    (case re_sub [backslash, CHR ''2''] (strip l) of
                       Inl e \<Rightarrow> Inl e
                     | Inr t \<Rightarrow>
                         (case re_sub [backslash, CHR ''3''] (strip l) of
                            Inl e \<Rightarrow> Inl e
                          | Inr value \<Rightarrow>
                              Inr (AList.update n (Var_init n value (Some (drop 1 t)) False) v)))))"

definition loadvars :: "string option \<Rightarrow> fs \<Rightarrow> error + (string \<times> Var) list" where
  "loadvars bd fsys =
     (case bd of
        None \<Rightarrow> Inr []
      | Some d \<Rightarrow>
          if \<not> path_exists fsys d then Inr []
          else if path_exists fsys (path_join d ''CMakeCache.txt'')
          then (case files fsys (path_join d ''CMakeCache.txt'') of
                  None \<Rightarrow> Inl (OSError (path_join d ''CMakeCache.txt''))
                | Some text \<Rightarrow> foldl load_line (Inr []) (readlines text))
          else Inr [])"

text \<open>\<^verbatim>\<open>CMakeCache.__init__(builddir)\<close>.\<close>

definition CMakeCache_init :: "string option \<Rightarrow> fs \<Rightarrow> error + CMakeCache" where
  "CMakeCache_init bd fsys =
     (case loadvars bd fsys of
        Inl e \<Rightarrow> Inl e
      | Inr v \<Rightarrow> Inr \<lparr>items = v, dirty = False\<rparr>)"


section \<open>Gathering the input variables (build.py)\<close>

text \<open>
  What the code takes from outside itself: \<^verbatim>\<open>util.in_windows()\<close>,
  \<^verbatim>\<open>CMakeSysInfo.var(name, generator)\<close> (\<open>None\<close> when it raises), the time stamp of
  \<^verbatim>\<open>datetime.now()\<close>, the methods of the generator (its class is not among the
  sources; a generator holds a pointer to its build, which its commands may read), the
  child process \<^verbatim>\<open>util.runsyscmd(cmd)\<close> runs in the working directory (whether it
  exits with 0, and what it leaves on the file system) and \<^verbatim>\<open>Conan().install(build)\<close>.
\<close>

record env =
  in_windows :: bool
  sysinfo_var :: "string \<Rightarrow> nat \<Rightarrow> string option"
  now :: string
  gen_is_msvc :: "nat \<Rightarrow> bool"
  gen_configure_args :: "nat \<Rightarrow> Build \<Rightarrow> string list"
  gen_cmd :: "nat \<Rightarrow> Build \<Rightarrow> string list \<Rightarrow> string list"
  gen_install :: "nat \<Rightarrow> Build \<Rightarrow> string list"
  child :: "string \<Rightarrow> string list \<Rightarrow> fs \<Rightarrow> bool \<times> fs"
  conan_install :: "Build \<Rightarrow> fs \<Rightarrow> bool \<times> fs"

text \<open>\<^verbatim>\<open>s.split(c)\<close> for a separator of one character.\<close>

fun split_on :: "char \<Rightarrow> string \<Rightarrow> string list" where
  "split_on c [] = [[]]"
| "split_on c (x # xs) =
     (if x = c then [] # split_on c xs
      else (case split_on c xs of [] \<Rightarrow> [[x]] | y # ys \<Rightarrow> (x # y) # ys))"

text \<open>\<^verbatim>\<open>sep.join(xs)\<close>.\<close>

fun join :: "string \<Rightarrow> string list \<Rightarrow> string" where
  "join sep [] = []"
| "join sep [x] = x"
| "join sep (x # y # ys) = x @ sep @ join sep (y # ys)"

text \<open>
  \<^verbatim>\<open>Build._get_flagseq\<close>. \<open>system_flags b\<close> stands for \<^verbatim>\<open>self.system.flags\<close>, and
  so on; \<^verbatim>\<open>self.variant.flags\<close> raises when the variant is \<open>None\<close>.
\<close>

definition get_flagseq :: "Build \<Rightarrow> error + flagset list" where
  "get_flagseq b =
     (case variant b of
        None \<Rightarrow> Inl (AttributeError ''flags'')
      | Some _ \<Rightarrow> Inr [flags b, system_flags b, architecture_flags b, compiler_flags b,
                       buildtype_flags b, variant_flags b])"

text \<open>
  The body of the inner loop of \<^verbatim>\<open>Build._gather_cmake_vars\<close> for one assignment
  string \<open>v\<close>. \<^verbatim>\<open>CMakeCache.setvar(self, name, val, vartype, **kwargs)\<close> has no default
  for \<^verbatim>\<open>vartype\<close>, so the call \<^verbatim>\<open>setvar(nspl[0], vval, from_input=True)\<close> of the
  first branch raises \<open>TypeError\<close> before \<^verbatim>\<open>setvar\<close> runs.
\<close>

definition gather_cmake_var :: "string \<Rightarrow> CMakeCache \<Rightarrow> error + CMakeCache" where
  "gather_cmake_var v c =
     (let spl = split_on CHR ''='' v;
          vval = (if length spl > 1 then concat (drop 1 spl) else [])
      in case spl of
           [] \<Rightarrow> Inl (IndexError ''list index out of range'')
         | h # _ \<Rightarrow>
             (case split_on CHR '':'' h of
                [n] \<Rightarrow> Inl (TypeError ''setvar() missing 1 required positional argument: vartype'')
              | [n, t] \<Rightarrow>
                  (case setvar n vval (Some t) from_input_kw c of
                     Inl e \<Rightarrow> Inl e
                   | Inr (_, c') \<Rightarrow> Inr c')
              | _ \<Rightarrow> Inl (Exception (''could not parse variable value: '' @ v))))"

fun gather_cmake_vars_list :: "string list \<Rightarrow> CMakeCache \<Rightarrow> error + CMakeCache" where
  "gather_cmake_vars_list [] c = Inr c"
| "gather_cmake_vars_list (v # vs) c =
     (case gather_cmake_var v c of
        Inl e \<Rightarrow> Inl e
      | Inr c' \<Rightarrow> gather_cmake_vars_list vs c')"

definition gather_cmake_vars :: "Build \<Rightarrow> CMakeCache \<Rightarrow> error + CMakeCache" where
  "gather_cmake_vars b c =
     (case get_flagseq b of
        Inl e \<Rightarrow> Inl e
      | Inr flagseq \<Rightarrow> gather_cmake_vars_list (concat (map cmake_vars flagseq)) c)"

text \<open>
  \<^verbatim>\<open>Build._gather_flags(which, append_to_sysinfo_var, with_defines=True)\<close>, as
  \<^verbatim>\<open>gather_input_cache_vars\<close> calls it; \<open>which\<close> selects the attribute.
\<close>

definition gather_flags :: "env \<Rightarrow> (flagset \<Rightarrow> string list) \<Rightarrow> string \<Rightarrow> Build \<Rightarrow> error + string list" where
  "gather_flags e which sysvar b =
     (case get_flagseq b of
        Inl err \<Rightarrow> Inl err
      | Inr flagseq \<Rightarrow>
          Inr ((case sysinfo_var e sysvar (generator b) of None \<Rightarrow> [] | Some x \<Rightarrow> [x])
               @ concat (map (\<lambda>fl. which fl @ fdefines fl) flagseq)))"

text \<open>
  \<^verbatim>\<open>Build.gather_input_cache_vars\<close>, on the cache \<^verbatim>\<open>self.varcache\<close>. \<open>setv\<close> is the
  local \<^verbatim>\<open>_set\<close>: a typed setter called with \<^verbatim>\<open>from_input=True\<close>.
\<close>

definition setv ::
  "(string \<Rightarrow> string \<Rightarrow> kwargs \<Rightarrow> CMakeCache \<Rightarrow> error + (bool \<times> CMakeCache))
     \<Rightarrow> string \<Rightarrow> string \<Rightarrow> error + CMakeCache \<Rightarrow> error + CMakeCache" where
  "setv pfn pname pval r =
     (case r of
        Inl e \<Rightarrow> Inl e
      | Inr c \<Rightarrow> (case pfn pname pval from_input_kw c of
                    Inl e \<Rightarrow> Inl e
                  | Inr (_, c') \<Rightarrow> Inr c'))"

definition gather_input_cache_vars :: "env \<Rightarrow> Build \<Rightarrow> CMakeCache \<Rightarrow> error + CMakeCache" where
  "gather_input_cache_vars e b c =
     (let r0 = gather_cmake_vars b c;
          r1 = (if \<not> gen_is_msvc e (generator b)
                then setv (set_f (in_windows e)) ''CMAKE_CXX_COMPILER'' (path (compiler b))
                       (setv (set_f (in_windows e)) ''CMAKE_C_COMPILER'' (c_compiler (compiler b)) r0)
                else r0);
          r2 = setv set_s ''CMAKE_BUILD_TYPE'' (str (buildtype b)) r1;
          r3 = setv (set_p (in_windows e)) ''CMAKE_INSTALL_PREFIX'' (installdir b) r2
      in case gather_flags e cflags ''CMAKE_C_FLAGS_INIT'' b of
           Inl err \<Rightarrow> (case r3 of Inl e0 \<Rightarrow> Inl e0 | Inr _ \<Rightarrow> Inl err)
         | Inr cfl \<Rightarrow>
             (let r4 = (if cfl \<noteq> [] then setv set_s ''CMAKE_C_FLAGS'' (join '' '' cfl) r3 else r3)
              in case gather_flags e cxxflags ''CMAKE_CXX_FLAGS_INIT'' b of
                   Inl err \<Rightarrow> (case r4 of Inl e0 \<Rightarrow> Inl e0 | Inr _ \<Rightarrow> Inl err)
                 | Inr cxxfl \<Rightarrow>
                     (if cxxfl \<noteq> [] then setv set_s ''CMAKE_CXX_FLAGS'' (join '' '' cxxfl) r4
                      else r4)))"

section \<open>The life cycle of a build (build.py)\<close>

subsection \<open>State\<close>

text \<open>
  The state the life cycle runs on: the file system, the cache objects by reference,
  for every generator object the build it points to (\<^verbatim>\<open>generator.build\<close>), and the
  child processes \<^verbatim>\<open>build.py\<close> has started so far through \<^verbatim>\<open>util.runsyscmd\<close>, each
  with its working directory and command line.
  An operation returns its result or the exception it raised, and the state it left:
  an exception undoes nothing.
\<close>

record state =
  fsys :: fs
  caches :: "nat \<Rightarrow> CMakeCache"
  gen_build :: "nat \<Rightarrow> Build"
  cmdlog :: "(string \<times> string list) list"

type_synonym 'a result = "(error + 'a) \<times> state"

definition truthy :: "string option \<Rightarrow> bool" where
  "truthy x = (case x of None \<Rightarrow> False | Some t \<Rightarrow> t \<noteq> [])"

text \<open>
  Modelled from the spec: \<^verbatim>\<open>util.runsyscmd(cmd)\<close>, which is not among the sources
  (``a blocking child-process call; the call fails (propagates an error) if the child
  exits non-zero''). The child runs in the directory of the enclosing
  \<^verbatim>\<open>with util.setcwd(d)\<close>.
\<close>

definition runsyscmd :: "env \<Rightarrow> string \<Rightarrow> string list \<Rightarrow> state \<Rightarrow> unit result" where
  "runsyscmd e cwd cmd st =
     (let (ok, fsys') = child e cwd cmd (fsys st);
          st' = st\<lparr>fsys := fsys', cmdlog := cmdlog st @ [(cwd, cmd)]\<rparr>
      in if ok then (Inr (), st') else (Inl (CmdFailed cmd), st'))"

text \<open>
  \<^verbatim>\<open>os.makedirs(q)\<close> for a normalised path: the directory and the directories above
  it; it fails when the path exists or a path above it is a file.
\<close>

definition ancestors :: "string \<Rightarrow> string list" where
  "ancestors q = map (\<lambda>k. take k q) (filter (\<lambda>k. q ! k = CHR ''/'') [1..<length q])"

definition makedirs :: "string \<Rightarrow> state \<Rightarrow> unit result" where
  "makedirs q st =
     (if path_exists (fsys st) q \<or> list_ex (\<lambda>a. files (fsys st) a \<noteq> None) (ancestors q)
      then (Inl (OSError q), st)
      else (Inr (), st\<lparr>fsys := (fsys st)\<lparr>dirs := dirs (fsys st) \<union> set (ancestors q) \<union> {q}\<rparr>\<rparr>))"

text \<open>\<^verbatim>\<open>os.path.dirname\<close> of posixpath.\<close>

definition dirname :: "string \<Rightarrow> string" where
  "dirname q =
     (let head = rev (dropWhile (\<lambda>c. c \<noteq> CHR ''/'') (rev q))
      in if head \<noteq> [] \<and> \<not> list_all (\<lambda>c. c = CHR ''/'') head
         then rev (dropWhile (\<lambda>c. c = CHR ''/'') (rev head))
         else head)"

text \<open>
  \<^verbatim>\<open>with open(q, "w") as f: f.write(txt)\<close> for an absolute path \<open>q\<close>: it fails on a
  directory and where the directory of \<open>q\<close> does not exist.
\<close>

definition open_w :: "string \<Rightarrow> string \<Rightarrow> state \<Rightarrow> unit result" where
  "open_w q txt st =
     (if q \<in> dirs (fsys st) \<or> \<not> (dirname q = [] \<or> dirname q \<in> dirs (fsys st))
      then (Inl (OSError q), st)
      else (Inr (), st\<lparr>fsys := (fsys st)\<lparr>files := (files (fsys st))(q \<mapsto> txt)\<rparr>\<rparr>))"

text \<open>
  Modelled from the spec: \<^verbatim>\<open>util.setcwd\<close>, which is not among the sources
  (``directory changes for running tool commands are scoped: the previous working
  directory is unconditionally restored on every exit path''). Entering
  \<^verbatim>\<open>with util.setcwd(d)\<close> fails when \<open>d\<close> is not a directory; this test is written
  out wherever the code enters one. \<open>open_w_in\<close> is the same \<^verbatim>\<open>open\<close> and
  \<^verbatim>\<open>write\<close> for a name inside \<^verbatim>\<open>with util.setcwd(d)\<close>.
\<close>

definition open_w_in :: "string \<Rightarrow> string \<Rightarrow> string \<Rightarrow> state \<Rightarrow> unit result" where
  "open_w_in d nm txt st =
     (if d \<notin> dirs (fsys st) then (Inl (OSError d), st)
      else if path_join d nm \<in> dirs (fsys st) then (Inl (OSError (path_join d nm)), st)
      else (Inr (), st\<lparr>fsys := (fsys st)\<lparr>files := (files (fsys st))(path_join d nm \<mapsto> txt)\<rparr>\<rparr>))"

subsection \<open>The operations that do not recur\<close>

definition create_dir :: "Build \<Rightarrow> state \<Rightarrow> unit result" where
  "create_dir b st =
     (if \<not> path_exists (fsys st) (builddir b) then makedirs (builddir b) st else (Inr (), st))"

definition configure_cmd :: "env \<Rightarrow> Build \<Rightarrow> state \<Rightarrow> string list" where
  "configure_cmd e b st =
     [''cmake'', ''-C'', preload_file b]
     @ gen_configure_args e (generator b) (gen_build st (generator b))
     @ (if export_compile b then [''-DCMAKE_EXPORT_COMPILE_COMMANDS=1''] else [])
     @ [projdir b]"

definition mark_configure_done :: "Build \<Rightarrow> string list \<Rightarrow> state \<Rightarrow> unit result" where
  "mark_configure_done b cmd st =
     open_w_in (builddir b) ''cmany_configure.done'' (join '' '' cmd @ [newline]) st"

definition mark_build_done :: "Build \<Rightarrow> string list \<Rightarrow> state \<Rightarrow> unit result" where
  "mark_build_done b cmd st =
     open_w_in (builddir b) ''cmany_build.done'' (join '' '' cmd @ [newline]) st"

definition needs_cache_regeneration :: "Build \<Rightarrow> state \<Rightarrow> bool" where
  "needs_cache_regeneration b st =
     (if path_exists (fsys st) (cachefile b) \<and> dirty (caches st (varcache b)) then True
      else False)"

definition needs_configure :: "Build \<Rightarrow> state \<Rightarrow> error + bool" where
  "needs_configure b st =
     (if \<not> path_exists (fsys st) (builddir b) then Inr True
      else if builddir b \<notin> dirs (fsys st) then Inl (OSError (builddir b))
      else if \<not> path_exists (fsys st) (path_join (builddir b) ''cmany_configure.done'')
      then Inr True
      else if needs_cache_regeneration b st then Inr True
      else Inr False)"

definition needs_build :: "Build \<Rightarrow> state \<Rightarrow> error + bool" where
  "needs_build b st =
     (if \<not> path_exists (fsys st) (builddir b) then Inr True
      else if builddir b \<notin> dirs (fsys st) then Inl (OSError (builddir b))
      else if \<not> path_exists (fsys st) (path_join (builddir b) ''cmany_build.done'')
      then Inr True
      else if needs_cache_regeneration b st then Inr True
      else Inr False)"

text \<open>
  \<^verbatim>\<open>Build.create_preload_file\<close>. \<open>fmt_vartype\<close> is what \<^verbatim>\<open>str.format\<close> makes of the
  type; the two templates are \<^verbatim>\<open>preload_file_tpl\<close> and \<^verbatim>\<open>preload_file_tpl_empty\<close>.
\<close>

definition fmt_vartype :: "string option \<Rightarrow> string" where
  "fmt_vartype t = (case t of None \<Rightarrow> ''None'' | Some x \<Rightarrow> x)"

definition preload_line :: "Var \<Rightarrow> string" where
  \<open>preload_line x =
     ''_cmany_set('' @ vname x @ '' "'' @ val x @ ''" '' @ fmt_vartype (vartype x) @ '')''\<close>

definition preload_file_tpl :: "string \<Rightarrow> string \<Rightarrow> string" where
  \<open>preload_file_tpl date vars =
     ''# Do not edit. Will be overwritten.'' @ [newline]
     @ ''# Generated by cmany on '' @ date @ [newline]
     @ [newline]
     @ ''if(NOT _cmany_set_def)'' @ [newline]
     @ ''    set(_cmany_set_def ON)'' @ [newline]
     @ ''    function(_cmany_set var value type)'' @ [newline]
     @ ''        set(${var} "${value}" CACHE ${type} "")'' @ [newline]
     @ ''        message(STATUS "cmany: ${var}=${value}")'' @ [newline]
     @ ''    endfunction(_cmany_set)'' @ [newline]
     @ ''endif(NOT _cmany_set_def)'' @ [newline]
     @ [newline]
     @ ''message(STATUS "cmany:preload----------------------")'' @ [newline]
     @ vars @ [newline]
     @ ''message(STATUS "cmany:preload----------------------")'' @ [newline]
     @ [newline]
     @ ''# Do not edit. Will be overwritten.'' @ [newline]
     @ ''# Generated by cmany on '' @ date @ [newline]\<close>

definition preload_file_tpl_empty :: "string \<Rightarrow> string" where
  \<open>preload_file_tpl_empty date =
     ''# Do not edit. Will be overwritten.'' @ [newline]
     @ ''# Generated by cmany on '' @ date @ [newline]
     @ [newline]
     @ ''message(STATUS "cmany: nothing to preload...")'' @ [newline]\<close>

definition create_preload_file :: "env \<Rightarrow> Build \<Rightarrow> state \<Rightarrow> unit result" where
  "create_preload_file e b st =
     (case create_dir b st of
        (Inl err, st1) \<Rightarrow> (Inl err, st1)
      | (Inr _, st1) \<Rightarrow>
          (let lines = map (\<lambda>(k, x). preload_line x)
                         (filter (\<lambda>(k, x). from_input x) (items (caches st1 (varcache b))));
               txt = (if lines \<noteq> [] then preload_file_tpl (now e) (join [newline] lines)
                      else preload_file_tpl_empty (now e))
           in open_w (preload_file b) txt st1))"

text \<open>
  \<^verbatim>\<open>Build.deps_done\<close>, \<^verbatim>\<open>Build.mark_deps_done\<close> and \<^verbatim>\<open>Build.handle_conan\<close>. The
  loop of \<^verbatim>\<open>handle_conan\<close> stops at the first manifest that exists while
  \<^verbatim>\<open>conanbuildinfo.cmake\<close> does not. Modelled from the spec: \<^verbatim>\<open>Conan().install\<close>,
  whose class is not among the sources (``delegate installation to that integration
  before marking done''): the parameter \<open>conan_install\<close>, which may change the file
  system and may raise. What it starts on its own is not entered in \<open>cmdlog\<close>, which
  holds the calls of \<^verbatim>\<open>util.runsyscmd\<close> that \<^verbatim>\<open>build.py\<close> makes.
\<close>

definition deps_done :: "Build \<Rightarrow> state \<Rightarrow> bool" where
  "deps_done b st = path_exists (fsys st) (path_join (builddir b) ''cmany_deps.done'')"

definition mark_deps_done :: "Build \<Rightarrow> state \<Rightarrow> unit result" where
  "mark_deps_done b st =
     open_w_in (builddir b) ''cmany_deps.done''
       ((case deps b of None \<Rightarrow> [] | Some d \<Rightarrow> if d \<noteq> [] then d @ [newline] else [])
        @ (case deps_prefix b of None \<Rightarrow> [] | Some d \<Rightarrow> if d \<noteq> [] then d @ [newline] else []))
       st"

definition handle_conan :: "env \<Rightarrow> Build \<Rightarrow> state \<Rightarrow> unit result" where
  "handle_conan e b st =
     (if \<not> with_conan b then (Inr (), st)
      else if \<not> list_ex (\<lambda>fn. path_exists (fsys st) (path_join (projdir b) fn)
                               \<and> \<not> path_exists (fsys st)
                                     (path_join (builddir b) ''conanbuildinfo.cmake''))
                  [''conanfile.py'', ''conanfile.txt'']
      then (Inr (), st)
      else (let (ok, fsys') = conan_install e b (fsys st)
            in if ok then (Inr (), st\<lparr>fsys := fsys'\<rparr>)
               else (Inl (Exception ''conan install''), st\<lparr>fsys := fsys'\<rparr>)))"

text \<open>
  The copy \<^verbatim>\<open>handle_deps\<close> makes of the build: \<^verbatim>\<open>copy.copy(self)\<close> copies every
  attribute as it is, references included, and five attributes are then assigned
  (\<^verbatim>\<open>handle_deps\<close> makes the copy only where \<^verbatim>\<open>deps\<close> is a non-empty string, and
  the constructor leaves \<^verbatim>\<open>deps_prefix\<close> a string; \<open>None\<close> stands as the empty string
  here.)
\<close>

definition dup_of :: "Build \<Rightarrow> Build" where
  "dup_of b =
     b\<lparr>builddir := path_join (builddir b) ''cmany_deps-build'',
       installdir := (case deps_prefix b of None \<Rightarrow> [] | Some d \<Rightarrow> d),
       projdir := (case deps b of None \<Rightarrow> [] | Some d \<Rightarrow> d),
       preload_file := path_join (builddir b) (preload_file b),
       deps := None\<rparr>"

text \<open>\<^verbatim>\<open>self.varcache.commit(self.builddir)\<close> and a typed setter, on the store.\<close>

definition commit_varcache :: "Build \<Rightarrow> state \<Rightarrow> bool result" where
  "commit_varcache b st =
     (case commit (Some (builddir b)) (caches st (varcache b)) (fsys st) of
        Inl err \<Rightarrow> (Inl err, st)
      | Inr (r, c', fsys') \<Rightarrow>
          (Inr r, st\<lparr>fsys := fsys', caches := (caches st)(varcache b := c')\<rparr>))"

definition varcache_p :: "env \<Rightarrow> Build \<Rightarrow> string \<Rightarrow> string \<Rightarrow> state \<Rightarrow> bool result" where
  "varcache_p e b n v st =
     (case set_p (in_windows e) n v no_kwargs (caches st (varcache b)) of
        Inl err \<Rightarrow> (Inl err, st)
      | Inr (r, c') \<Rightarrow> (Inr r, st\<lparr>caches := (caches st)(varcache b := c')\<rparr>))"

text \<open>
  The loop of \<^verbatim>\<open>Build.build\<close> over the targets: one child process for each, the
  command of the last one returned.
\<close>

fun run_targets :: "env \<Rightarrow> Build \<Rightarrow> string list \<Rightarrow> string list \<Rightarrow> state \<Rightarrow> (string list) result" where
  "run_targets e b last_cmd [] st = (Inr last_cmd, st)"
| "run_targets e b last_cmd (t # ts) st =
     (case runsyscmd e (builddir b) (gen_cmd e (generator b) (gen_build st (generator b)) [t]) st of
        (Inl err, st1) \<Rightarrow> (Inl err, st1)
      | (Inr _, st1) \<Rightarrow>
          run_targets e b (gen_cmd e (generator b) (gen_build st (generator b)) [t]) ts st1)"

definition default_targets :: "Build \<Rightarrow> string list \<Rightarrow> string list" where
  "default_targets b targets =
     (if length targets = 0
      then (if is_msvc (compiler b) then [''ALL_BUILD''] else [''all''])
      else targets)"

subsection \<open>Dependencies, configure, build, install\<close>

text \<open>
  \<^verbatim>\<open>Build.handle_deps\<close>, \<^verbatim>\<open>Build.configure\<close>, \<^verbatim>\<open>Build.build\<close> and
  \<^verbatim>\<open>Build.install\<close> call one another. \<^verbatim>\<open>handle_deps\<close> runs the three others on the
  copy, whose \<^verbatim>\<open>deps\<close> is \<open>None\<close>, after it has pointed the shared generator at the
  copy (\<^verbatim>\<open>dup.generator.build = dup\<close>); the bare \<^verbatim>\<open>except\<close> around
  \<^verbatim>\<open>dup.install()\<close> drops whatever that call raises and keeps the state it left.
\<close>

function handle_deps :: "env \<Rightarrow> Build \<Rightarrow> state \<Rightarrow> unit result"
  and configure :: "env \<Rightarrow> Build \<Rightarrow> state \<Rightarrow> unit result"
  and build :: "env \<Rightarrow> Build \<Rightarrow> string list \<Rightarrow> state \<Rightarrow> unit result"
  and install :: "env \<Rightarrow> Build \<Rightarrow> state \<Rightarrow> unit result"
where
  "handle_deps e b st =
     (if deps_done b st then (Inr (), st)
      else if \<not> truthy (deps b)
      then (case handle_conan e b st of
              (Inl err, st1) \<Rightarrow> (Inl err, st1)
            | (Inr _, st1) \<Rightarrow> mark_deps_done b st1)
      else (case configure e (dup_of b) (st\<lparr>gen_build := (gen_build st)(generator b := dup_of b)\<rparr>) of
              (Inl err, st1) \<Rightarrow> (Inl err, st1)
            | (Inr _, st1) \<Rightarrow>
                (case build e (dup_of b) [] st1 of
                   (Inl err, st2) \<Rightarrow> (Inl err, st2)
                 | (Inr _, st2) \<Rightarrow>
                     (case install e (dup_of b) st2 of
                        (_, st3) \<Rightarrow>
                          (case varcache_p e b ''CMAKE_PREFIX_PATH'' (installdir b) st3 of
                             (Inl err, st4) \<Rightarrow> (Inl err, st4)
                           | (Inr _, st4) \<Rightarrow> mark_deps_done b st4)))))"
| "configure e b st =
     (case create_dir b st of
        (Inl err, st1) \<Rightarrow> (Inl err, st1)
      | (Inr _, st1) \<Rightarrow>
          (case create_preload_file e b st1 of
             (Inl err, st2) \<Rightarrow> (Inl err, st2)
           | (Inr _, st2) \<Rightarrow>
               (case handle_deps e b st2 of
                  (Inl err, st3) \<Rightarrow> (Inl err, st3)
                | (Inr _, st3) \<Rightarrow>
                    (case (if needs_cache_regeneration b st3 then commit_varcache b st3
                           else (Inr False, st3)) of
                       (Inl err, st4) \<Rightarrow> (Inl err, st4)
                     | (Inr _, st4) \<Rightarrow>
                         if builddir b \<notin> dirs (fsys st4) then (Inl (OSError (builddir b)), st4)
                         else (case runsyscmd e (builddir b) (configure_cmd e b st4) st4 of
                                 (Inl err, st5) \<Rightarrow> (Inl err, st5)
                               | (Inr _, st5) \<Rightarrow>
                                   mark_configure_done b (configure_cmd e b st4) st5)))))"
| "build e b targets st =
     (case create_dir b st of
        (Inl err, st1) \<Rightarrow> (Inl err, st1)
      | (Inr _, st1) \<Rightarrow>
          if builddir b \<notin> dirs (fsys st1) then (Inl (OSError (builddir b)), st1)
          else (case needs_configure b st1 of
                  Inl err \<Rightarrow> (Inl err, st1)
                | Inr nc \<Rightarrow>
                    (case (if nc then configure e b st1 else (Inr (), st1)) of
                       (Inl err, st2) \<Rightarrow> (Inl err, st2)
                     | (Inr _, st2) \<Rightarrow>
                         (case handle_deps e b st2 of
                            (Inl err, st3) \<Rightarrow> (Inl err, st3)
                          | (Inr _, st3) \<Rightarrow>
                              (case run_targets e b [] (default_targets b targets) st3 of
                                 (Inl err, st4) \<Rightarrow> (Inl err, st4)
                               | (Inr cmd, st4) \<Rightarrow> mark_build_done b cmd st4)))))"
| "install e b st =
     (case create_dir b st of
        (Inl err, st1) \<Rightarrow> (Inl err, st1)
      | (Inr _, st1) \<Rightarrow>
          if builddir b \<notin> dirs (fsys st1) then (Inl (OSError (builddir b)), st1)
          else (case needs_build b st1 of
                  Inl err \<Rightarrow> (Inl err, st1)
                | Inr nb \<Rightarrow>
                    (case (if nb then build e b [] st1 else (Inr (), st1)) of
                       (Inl err, st2) \<Rightarrow> (Inl err, st2)
                     | (Inr _, st2) \<Rightarrow>
                         runsyscmd e (builddir b)
                           (gen_install e (generator b) (gen_build st2 (generator b))) st2)))"
  by pat_completeness auto
termination
  by (relation "measure (\<lambda>x. case x of
          Inl (Inl (e, b, st)) \<Rightarrow> (if truthy (deps b) then 4 else 0)
        | Inl (Inr (e, b, st)) \<Rightarrow> (if truthy (deps b) then 4 else 0) + 1
        | Inr (Inl (e, b, ts, st)) \<Rightarrow> (if truthy (deps b) then 4 else 0) + 2
        | Inr (Inr (e, b, st)) \<Rightarrow> (if truthy (deps b) then 4 else 0) + 3)")
     (auto simp: dup_of_def truthy_def)

declare handle_deps.simps [simp del] configure.simps [simp del] build.simps [simp del]
  install.simps [simp del]

text \<open>\<^verbatim>\<open>Build.clean\<close>.\<close>

definition clean :: "env \<Rightarrow> Build \<Rightarrow> state \<Rightarrow> unit result" where
  "clean e b st =
     (case create_dir b st of
        (Inl err, st1) \<Rightarrow> (Inl err, st1)
      | (Inr _, st1) \<Rightarrow>
          if builddir b \<notin> dirs (fsys st1) then (Inl (OSError (builddir b)), st1)
          else (case runsyscmd e (builddir b)
                       (gen_cmd e (generator b) (gen_build st1 (generator b)) [''clean'']) st1 of
                  (Inl err, st2) \<Rightarrow> (Inl err, st2)
                | (Inr _, st2) \<Rightarrow>
                    if files (fsys st2) (path_join (builddir b) ''cmany_build.done'') = None
                    then (Inl (OSError (path_join (builddir b) ''cmany_build.done'')), st2)
                    else (Inr (), st2\<lparr>fsys := (fsys st2)\<lparr>files :=
                            (files (fsys st2))(path_join (builddir b) ''cmany_build.done'' := None)\<rparr>\<rparr>)))"

subsection \<open>The end of the constructor\<close>

text \<open>
  What \<^verbatim>\<open>Build.__init__\<close> does after the generator is there: it constructs the cache
  from the build directory and gathers the input variables into it
  (\<open>Build_init_varcache\<close>), then sets \<^verbatim>\<open>deps\<close> and \<^verbatim>\<open>deps_prefix\<close> from the keyword
  arguments (\<open>Build_init_deps\<close>; \<^verbatim>\<open>kwargs.get('deps', '')\<close> and
  \<^verbatim>\<open>kwargs.get('deps_prefix')\<close>, \<^verbatim>\<open>os.path.isabs\<close> of posixpath).
\<close>

definition Build_init_varcache :: "env \<Rightarrow> Build \<Rightarrow> fs \<Rightarrow> error + CMakeCache" where
  "Build_init_varcache e b fs0 =
     (case CMakeCache_init (Some (builddir b)) fs0 of
        Inl err \<Rightarrow> Inl err
      | Inr c \<Rightarrow> gather_input_cache_vars e b c)"

definition isabs :: "string \<Rightarrow> bool" where
  "isabs q = (q \<noteq> [] \<and> hd q = CHR ''/'')"

definition Build_init_deps ::
  "(string \<Rightarrow> string) \<Rightarrow> string option \<Rightarrow> string option \<Rightarrow> Build \<Rightarrow> Build" where
  "Build_init_deps abspath deps_kw deps_prefix_kw b =
     (let d0 = (case deps_kw of None \<Rightarrow> [] | Some d \<Rightarrow> d);
          d = (if d0 \<noteq> [] \<and> \<not> isabs d0 then abspath d0 else d0);
          q = (case deps_prefix_kw of
                 None \<Rightarrow> None
               | Some x \<Rightarrow> if x \<noteq> [] \<and> \<not> isabs x then Some (abspath x) else Some x)
      in b\<lparr>deps := Some d,
           deps_prefix := (if \<not> truthy q then Some (builddir b) else q)\<rparr>)"

section \<open>Sequences of cache operations\<close>

text \<open>
  The operations on a cache and the file system it is committed to, for sequences of
  them: \<^verbatim>\<open>setvar\<close>, the five typed setters, \<^verbatim>\<open>commit\<close>, and whatever other
  programs do to the files in between (\<open>Outside\<close>). An operation that raises leaves the
  cache and the files as they were: \<^verbatim>\<open>setvar\<close> and \<^verbatim>\<open>commit\<close> raise before they
  assign anything. \<open>any_dirty\<close> is the logical or of the variables' dirty flags.
\<close>

datatype cache_op =
    SetVar string string "string option" kwargs
  | SetB string string kwargs
  | SetS string string kwargs
  | SetP string string kwargs
  | SetF string string kwargs
  | SetI string string kwargs
  | Commit "string option"
  | Outside fs

definition keep :: "CMakeCache \<times> fs \<Rightarrow> error + (bool \<times> CMakeCache) \<Rightarrow> CMakeCache \<times> fs" where
  "keep cf r = (case r of Inl _ \<Rightarrow> cf | Inr (_, c') \<Rightarrow> (c', snd cf))"

fun apply_op :: "bool \<Rightarrow> CMakeCache \<times> fs \<Rightarrow> cache_op \<Rightarrow> CMakeCache \<times> fs" where
  "apply_op w cf (SetVar n v ty kw) = keep cf (setvar n v ty kw (fst cf))"
| "apply_op w cf (SetB n v kw) = keep cf (set_b n v kw (fst cf))"
| "apply_op w cf (SetS n v kw) = keep cf (set_s n v kw (fst cf))"
| "apply_op w cf (SetP n v kw) = keep cf (set_p w n v kw (fst cf))"
| "apply_op w cf (SetF n v kw) = keep cf (set_f w n v kw (fst cf))"
| "apply_op w cf (SetI n v kw) = keep cf (set_i n v kw (fst cf))"
| "apply_op w cf (Outside fs') = (fst cf, fs')"
| "apply_op w cf (Commit bd) =
     (case commit bd (fst cf) (snd cf) of Inl _ \<Rightarrow> cf | Inr (_, c', fsys') \<Rightarrow> (c', fsys'))"

definition any_dirty :: "CMakeCache \<Rightarrow> bool" where
  "any_dirty c = list_ex (\<lambda>kx. vdirty (snd kx)) (items c)"

section \<open>Example inputs\<close>

text \<open>
  Concrete inputs for the closed theorems below. \<open>Build_attrs\<close> holds the attributes
  \<^verbatim>\<open>Build.__init__\<close> assigns before it calls \<^verbatim>\<open>_set_paths\<close>, with empty flag sets and
  no dependencies; the examples are a Visual Studio build and a gcc build under
  \<^verbatim>\<open>/proj\<close>, where \<^verbatim>\<open>os.path.abspath\<close> leaves the joined paths as they are.
\<close>

definition no_flags :: flagset where
  "no_flags = \<lparr>cflags = [], cxxflags = [], fdefines = [], cmake_vars = []\<rparr>"

definition Build_attrs ::
  "BuildItem \<Rightarrow> BuildItem \<Rightarrow> BuildItem \<Rightarrow> Compiler \<Rightarrow> BuildItem option \<Rightarrow> Build" where
  "Build_attrs sy ar bt co va =
     \<lparr>projdir = ''/proj'', buildroot = ''/proj/build'', installroot = ''/proj/install'',
      flags = no_flags, system = sy, architecture = ar, buildtype = bt, compiler = co,
      variant = va, system_flags = no_flags, architecture_flags = no_flags,
      buildtype_flags = no_flags, compiler_flags = no_flags, variant_flags = no_flags,
      adjusted = False, tag = [], buildtag = [], installtag = [], builddir = [],
      installdir = [], preload_file = [], cachefile = [], generator = 0, varcache = 0,
      deps = Some [], deps_prefix = None, with_conan = False, export_compile = False\<rparr>"

definition vs2015 :: Compiler where
  "vs2015 = \<lparr>name = ''vs2015'', is_msvc = True, path = ''cl.exe'', c_compiler = ''cl.exe''\<rparr>"

definition gcc :: Compiler where
  "gcc = \<lparr>name = ''gcc5.4'', is_msvc = False, path = ''/usr/bin/g++'',
           c_compiler = ''/usr/bin/gcc''\<rparr>"

definition vs_build :: Build where
  "vs_build =
     set_paths (\<lambda>q. q)
       (Build_attrs \<lparr>name = ''windows''\<rparr> \<lparr>name = ''x86_64''\<rparr> \<lparr>name = ''Release''\<rparr> vs2015
          (Some \<lparr>name = ''none''\<rparr>))"

definition gcc_build :: "string \<Rightarrow> Build" where
  "gcc_build va =
     set_paths (\<lambda>q. q)
       (Build_attrs \<lparr>name = ''linux''\<rparr> \<lparr>name = ''x86_64''\<rparr> \<lparr>name = ''Release''\<rparr> gcc
          (Some \<lparr>name = va\<rparr>))"

definition empty_cache :: CMakeCache where
  "empty_cache = \<lparr>items = [], dirty = False\<rparr>"

definition ex_fs :: fs where
  "ex_fs = \<lparr>dirs = {''/b''},
            files = [''/b/CMakeCache.txt'' \<mapsto> ''FOO:STRING=old'' @ [newline]]\<rparr>"

text \<open>
  A generator for makefiles, and a child process that does what a successful run of
  cmake does as far as the code can see: when it configures (\<^verbatim>\<open>cmake -C ...\<close>) it
  writes \<^verbatim>\<open>CMakeCache.txt\<close> into its working directory. \<open>fresh_build\<close> is the gcc
  build as the constructor leaves it, without dependencies; \<open>fresh_state\<close> is the
  state after the constructor has run where only the project directory exists.
\<close>

definition ex_env :: env where
  \<open>ex_env =
     \<lparr>in_windows = False,
      sysinfo_var = (\<lambda>_ _. None),
      now = ''2017/03/01 12:03'',
      gen_is_msvc = (\<lambda>_. False),
      gen_configure_args = (\<lambda>_ _. [''-G'', ''"Unix Makefiles"'']),
      gen_cmd = (\<lambda>_ _ targets. [''make'', ''-j'', ''4''] @ targets),
      gen_install = (\<lambda>_ _. [''cmake'', ''--build'', ''.'', ''--target'', ''install'']),
      child = (\<lambda>cwd cmd fs0.
                 if take 2 cmd = [''cmake'', ''-C'']
                 then (True, fs0\<lparr>files := (files fs0)(path_join cwd ''CMakeCache.txt''
                                  \<mapsto> ''CMAKE_BUILD_TYPE:STRING=Release'' @ [newline])\<rparr>)
                 else (True, fs0)),
      conan_install = (\<lambda>_ fs0. (True, fs0))\<rparr>\<close>

definition fresh_build :: Build where
  "fresh_build = Build_init_deps (\<lambda>q. q) None None (gcc_build ''none'')"

definition fresh_fs :: fs where
  "fresh_fs = \<lparr>dirs = {''/proj''}, files = [''/proj/CMakeLists.txt'' \<mapsto> []]\<rparr>"

definition fresh_state :: state where
  "fresh_state =
     \<lparr>fsys = fresh_fs,
      caches = (\<lambda>_. case Build_init_varcache ex_env fresh_build fresh_fs of
                        Inl _ \<Rightarrow> empty_cache | Inr c \<Rightarrow> c),
      gen_build = (\<lambda>_. fresh_build),
      cmdlog = []\<rparr>"

text \<open>
  A build with a dependency source path, an environment in which the install command
  fails, one in which every child process fails, one in which the build tool fails, the
  state after the constructor of the build has run, and a state in which the build
  directory and the directory of the dependency build have been configured before
  (both have a cache file) while \<^verbatim>\<open>cmany_deps.done\<close> is absent.
\<close>

definition deps_build :: Build where
  "deps_build = Build_init_deps (\<lambda>q. q) (Some ''/deps'') None (gcc_build ''none'')"

definition no_install_env :: env where
  "no_install_env =
     ex_env\<lparr>child := (\<lambda>cwd cmd fs0.
                if cmd = gen_install ex_env 0 deps_build then (False, fs0)
                else child ex_env cwd cmd fs0)\<rparr>"

definition no_configure_env :: env where
  "no_configure_env = ex_env\<lparr>child := (\<lambda>cwd cmd fs0. (False, fs0))\<rparr>"

definition no_build_env :: env where
  "no_build_env =
     ex_env\<lparr>child := (\<lambda>cwd cmd fs0.
                if take 1 cmd = [''make''] then (False, fs0)
                else child ex_env cwd cmd fs0)\<rparr>"

definition deps_state :: state where
  "deps_state =
     \<lparr>fsys = \<lparr>dirs = {''/proj'', ''/deps''},
              files = [''/proj/CMakeLists.txt'' \<mapsto> [], ''/deps/CMakeLists.txt'' \<mapsto> []]\<rparr>,
      caches = (\<lambda>_. case Build_init_varcache ex_env deps_build fresh_fs of
                        Inl _ \<Rightarrow> empty_cache | Inr c \<Rightarrow> c),
      gen_build = (\<lambda>_. deps_build),
      cmdlog = []\<rparr>"

definition redo_state :: state where
  "redo_state =
     deps_state\<lparr>fsys :=
       \<lparr>dirs = {''/proj'', ''/deps'', ''/proj/build'', builddir deps_build,
                builddir (dup_of deps_build)},
        files = [''/proj/CMakeLists.txt'' \<mapsto> [], ''/deps/CMakeLists.txt'' \<mapsto> [],
                 cachefile deps_build \<mapsto> ''CMAKE_BUILD_TYPE:STRING=Debug'' @ [newline],
                 path_join (builddir (dup_of deps_build)) ''CMakeCache.txt''
                   \<mapsto> ''CMAKE_BUILD_TYPE:STRING=MinSizeRel'' @ [newline]]\<rparr>\<rparr>"

section \<open>Theorems\<close>

subsection \<open>Tags\<close>

text \<open>
  C1 (as amended). Only the older \<^verbatim>\<open>Build\<close> of pycmake.py has a build-directory tag
  of its own: \<^verbatim>\<open>_cat(sep, for_build_dir=True)\<close> joins system, architecture and compiler
  for a Visual Studio compiler and adds the build type for any other, and
  \<^verbatim>\<open>_cat(sep, for_build_dir=False)\<close> always has the build type; both append every
  variant that is not \<open>None\<close>. In \<^verbatim>\<open>Build\<close> of build.py, \<^verbatim>\<open>_set_paths\<close> makes tag,
  build tag and install tag one string, which has the build type whatever the compiler.
\<close>

theorem tags_of_both_builds:
  "buildtag (set_paths abspath bld) = tag (set_paths abspath bld)
   \<and> installtag (set_paths abspath bld) = tag (set_paths abspath bld)
   \<and> tag (set_paths abspath bld) =
       join ''-'' ([name (system bld), name (architecture bld), name (compiler bld),
                    name (buildtype bld)]
         @ (case variant bld of None \<Rightarrow> []
            | Some v \<Rightarrow> if name v \<noteq> [] \<and> name v \<noteq> ''none'' then [name v] else []))
   \<and> pycmake_cat sep True pb =
       join sep ((if is_msvc (p_compiler pb)
                  then [name (p_system pb), name (p_architecture pb), name (p_compiler pb)]
                  else [name (p_system pb), name (p_architecture pb), name (p_compiler pb),
                        name (p_buildtype pb)])
         @ (case p_variant pb of None \<Rightarrow> [] | Some v \<Rightarrow> [name v]))
   \<and> pycmake_cat sep False pb =
       join sep ([name (p_system pb), name (p_architecture pb), name (p_compiler pb),
                  name (p_buildtype pb)]
         @ (case p_variant pb of None \<Rightarrow> [] | Some v \<Rightarrow> [name v]))"
  by (simp add: set_paths_def Let_def cat_def pycmake_cat_def str_def split: option.split)

theorem tags_of_both_builds_witness:
  "buildtag vs_build = tag vs_build
   \<and> tag vs_build = ''windows-x86_64-vs2015-Release''
   \<and> pycmake_cat ''-'' True
        \<lparr>p_system = \<lparr>name = ''windows''\<rparr>, p_architecture = \<lparr>name = ''x86_64''\<rparr>,
         p_buildtype = \<lparr>name = ''Release''\<rparr>, p_compiler = vs2015, p_variant = None\<rparr>
       = ''windows-x86_64-vs2015''
   \<and> pycmake_cat ''-'' False
        \<lparr>p_system = \<lparr>name = ''windows''\<rparr>, p_architecture = \<lparr>name = ''x86_64''\<rparr>,
         p_buildtype = \<lparr>name = ''Release''\<rparr>, p_compiler = vs2015, p_variant = None\<rparr>
       = ''windows-x86_64-vs2015-Release''"
  using tags_of_both_builds [of "\<lambda>q. q"
      "Build_attrs \<lparr>name = ''windows''\<rparr> \<lparr>name = ''x86_64''\<rparr> \<lparr>name = ''Release''\<rparr> vs2015
         (Some \<lparr>name = ''none''\<rparr>)" "''-''"
      "\<lparr>p_system = \<lparr>name = ''windows''\<rparr>, p_architecture = \<lparr>name = ''x86_64''\<rparr>,
        p_buildtype = \<lparr>name = ''Release''\<rparr>, p_compiler = vs2015, p_variant = None\<rparr>"]
  by (simp add: vs_build_def Build_attrs_def vs2015_def)

text \<open>
  C1 as the specification states it fails on build.py: the build tag of a Visual Studio build has the
  build type, and is not the join of system, architecture and compiler.
\<close>

theorem msvc_buildtag_counterexample:
  "is_msvc (compiler vs_build)
   \<and> buildtag vs_build = ''windows-x86_64-vs2015-Release''
   \<and> buildtag vs_build \<noteq> join ''-'' [''windows'', ''x86_64'', ''vs2015'']"
  by (simp add: vs_build_def Build_attrs_def vs2015_def set_paths_def Let_def cat_def str_def)

text \<open>
  C2. The tag \<^verbatim>\<open>_set_paths\<close> computes is the names of system, architecture, compiler
  and build type joined by \<^verbatim>\<open>-\<close> in that order, with the variant's name as a fifth
  component exactly when the variant is there, its name is not empty and not
  \<^verbatim>\<open>none\<close>. The right-hand side reads the five names only, and computing the paths
  again gives the same tag. (This holds for every compiler of build.py.)
\<close>

theorem tag_is_join_of_names:
  "tag (set_paths abspath bld) =
     join ''-'' ([name (system bld), name (architecture bld), name (compiler bld),
                  name (buildtype bld)]
       @ (case variant bld of None \<Rightarrow> []
          | Some v \<Rightarrow> if name v \<noteq> [] \<and> name v \<noteq> ''none'' then [name v] else []))
   \<and> tag (set_paths abspath bld) = cat ''-'' bld
   \<and> tag (set_paths abspath (set_paths abspath bld)) = tag (set_paths abspath bld)"
  by (simp add: set_paths_def Let_def cat_def str_def split: option.split)

theorem tag_is_join_of_names_witness:
  "tag (gcc_build ''none'') = ''linux-x86_64-gcc5.4-Release''
   \<and> tag (gcc_build ''asan'') = ''linux-x86_64-gcc5.4-Release-asan''
   \<and> tag (gcc_build []) = ''linux-x86_64-gcc5.4-Release''"
  using tag_is_join_of_names [of "\<lambda>q. q"
      "Build_attrs \<lparr>name = ''linux''\<rparr> \<lparr>name = ''x86_64''\<rparr> \<lparr>name = ''Release''\<rparr> gcc
         (Some \<lparr>name = ''none''\<rparr>)"]
    tag_is_join_of_names [of "\<lambda>q. q"
      "Build_attrs \<lparr>name = ''linux''\<rparr> \<lparr>name = ''x86_64''\<rparr> \<lparr>name = ''Release''\<rparr> gcc
         (Some \<lparr>name = ''asan''\<rparr>)"]
    tag_is_join_of_names [of "\<lambda>q. q"
      "Build_attrs \<lparr>name = ''linux''\<rparr> \<lparr>name = ''x86_64''\<rparr> \<lparr>name = ''Release''\<rparr> gcc
         (Some \<lparr>name = []\<rparr>)"]
  by (simp add: gcc_build_def Build_attrs_def gcc_def)

subsection \<open>The dirty flags of setvar\<close>

lemma reset_stores: "reset v ty kw x = (ch, y) \<Longrightarrow> val y = v \<and> vartype y = ty"
  by (cases "kw_from_input kw") (auto simp: reset_def Let_def split: if_splits)

lemma setvar_stores:
  "setvar n v ty kw c = Inr (ch, c1) \<Longrightarrow>
     \<exists>x. map_of (items c1) n = Some x \<and> val x = v \<and> vartype x = ty"
proof (cases "map_of (items c) n")
  case None
  assume "setvar n v ty kw c = Inr (ch, c1)"
  with None show ?thesis
    by (cases "ty = None") (auto simp: setvar_def Var_init_def update_conv')
next
  case (Some x)
  assume a: "setvar n v ty kw c = Inr (ch, c1)"
  obtain ch' y where r: "reset v ty kw x = (ch', y)" by (cases "reset v ty kw x")
  from a Some r have "items c1 = AList.update n y (items c)"
    by (auto simp: setvar_def)
  with reset_stores [OF r] show ?thesis by (simp add: update_conv')
qed

lemma reset_same:
  "val x = v \<Longrightarrow> vartype x = ty \<Longrightarrow> \<not> force_dirty kw2 \<Longrightarrow>
   fst (reset v ty kw2 x) = False \<and> vdirty (snd (reset v ty kw2 x)) = vdirty x"
  by (cases "kw_from_input kw2") (simp_all add: reset_def Let_def)

lemma setvar_same:
  assumes "map_of (items c1) n = Some x" "val x = v" "vartype x = ty" "\<not> force_dirty kw2"
  shows "\<exists>c2. setvar n v ty kw2 c1 = Inr (False, c2) \<and> dirty c2 = dirty c1 \<and>
        map_option vdirty (map_of (items c2) n) = Some (vdirty x)"
proof -
  obtain ch y where r: "reset v ty kw2 x = (ch, y)" by (cases "reset v ty kw2 x")
  from reset_same [OF assms(2-4)] r have "ch = False" "vdirty y = vdirty x" by simp_all
  with assms(1) r show ?thesis by (simp add: setvar_def update_conv')
qed

lemma reset_changed:
  "v \<noteq> val x \<or> ty \<noteq> vartype x \<Longrightarrow>
   fst (reset v ty kw x) = True \<and> vdirty (snd (reset v ty kw x)) = True"
  by (cases "kw_from_input kw") (auto simp add: reset_def Let_def)

text \<open>
  C3. After a \<^verbatim>\<open>setvar(name, value, type)\<close> that returned, a second one with the same
  name, value and type and no \<^verbatim>\<open>force_dirty\<close> returns \<open>False\<close> and leaves the
  variable's dirty flag and the aggregate flag as they were; a \<^verbatim>\<open>setvar\<close> of a
  variable that is there with another value or another type returns \<open>True\<close> and sets
  both flags; a \<^verbatim>\<open>setvar\<close> of a name that is not there (with a type, which the assert
  asks for) inserts a dirty entry and sets the aggregate flag.
\<close>

theorem setvar_dirty_flags:
  "(setvar n v ty kw c = Inr (ch, c1) \<longrightarrow> \<not> force_dirty kw2 \<longrightarrow>
      (\<exists>c2. setvar n v ty kw2 c1 = Inr (False, c2) \<and> dirty c2 = dirty c1
            \<and> map_option vdirty (map_of (items c2) n) = map_option vdirty (map_of (items c1) n)))
   \<and> (map_of (items c) n = Some x \<longrightarrow> (v \<noteq> val x \<or> ty \<noteq> vartype x) \<longrightarrow>
      (\<exists>c'. setvar n v ty kw c = Inr (True, c') \<and> dirty c'
            \<and> map_option vdirty (map_of (items c') n) = Some True))
   \<and> (map_of (items c) n = None \<longrightarrow> ty \<noteq> None \<longrightarrow>
      (\<exists>c'. setvar n v ty kw c = Inr (True, c') \<and> dirty c'
            \<and> map_of (items c') n
                = Some \<lparr>vname = n, val = v, vartype = ty, vdirty = True, from_input = False\<rparr>))"
proof (intro conjI impI)
  assume a: "setvar n v ty kw c = Inr (ch, c1)" and nf: "\<not> force_dirty kw2"
  from setvar_stores [OF a]
  obtain y where y: "map_of (items c1) n = Some y" "val y = v" "vartype y = ty"
    by blast
  from setvar_same [OF y nf] y(1)
  show "\<exists>c2. setvar n v ty kw2 c1 = Inr (False, c2) \<and> dirty c2 = dirty c1
            \<and> map_option vdirty (map_of (items c2) n) = map_option vdirty (map_of (items c1) n)"
    by auto
next
  assume m: "map_of (items c) n = Some x" and d: "v \<noteq> val x \<or> ty \<noteq> vartype x"
  obtain ch' y where r: "reset v ty kw x = (ch', y)" by (cases "reset v ty kw x")
  from reset_changed [OF d, of kw] r have "ch' = True" "vdirty y = True" by simp_all
  with m r show "\<exists>c'. setvar n v ty kw c = Inr (True, c') \<and> dirty c'
            \<and> map_option vdirty (map_of (items c') n) = Some True"
    by (simp add: setvar_def update_conv')
next
  assume "map_of (items c) n = None" "ty \<noteq> None"
  then show "\<exists>c'. setvar n v ty kw c = Inr (True, c') \<and> dirty c'
            \<and> map_of (items c') n
                = Some \<lparr>vname = n, val = v, vartype = ty, vdirty = True, from_input = False\<rparr>"
    by (simp add: setvar_def Var_init_def update_conv')
qed

theorem setvar_dirty_flags_witness:
  "setvar ''FOO'' ''1'' (Some ''STRING'') no_kwargs empty_cache
     = Inr (True, \<lparr>items = [(''FOO'', \<lparr>vname = ''FOO'', val = ''1'', vartype = Some ''STRING'',
                                       vdirty = True, from_input = False\<rparr>)], dirty = True\<rparr>)
   \<and> setvar ''FOO'' ''1'' (Some ''STRING'') no_kwargs
        \<lparr>items = [(''FOO'', \<lparr>vname = ''FOO'', val = ''1'', vartype = Some ''STRING'',
                              vdirty = True, from_input = False\<rparr>)], dirty = True\<rparr>
     = Inr (False, \<lparr>items = [(''FOO'', \<lparr>vname = ''FOO'', val = ''1'', vartype = Some ''STRING'',
                                       vdirty = True, from_input = False\<rparr>)], dirty = True\<rparr>)
   \<and> setvar ''FOO'' ''1'' (Some ''STRING'') no_kwargs
        \<lparr>items = [(''FOO'', \<lparr>vname = ''FOO'', val = ''1'', vartype = Some ''STRING'',
                              vdirty = False, from_input = False\<rparr>)], dirty = False\<rparr>
     = Inr (False, \<lparr>items = [(''FOO'', \<lparr>vname = ''FOO'', val = ''1'', vartype = Some ''STRING'',
                                       vdirty = False, from_input = False\<rparr>)], dirty = False\<rparr>)
   \<and> setvar ''FOO'' ''2'' (Some ''STRING'') no_kwargs
        \<lparr>items = [(''FOO'', \<lparr>vname = ''FOO'', val = ''1'', vartype = Some ''STRING'',
                              vdirty = False, from_input = False\<rparr>)], dirty = False\<rparr>
     = Inr (True, \<lparr>items = [(''FOO'', \<lparr>vname = ''FOO'', val = ''2'', vartype = Some ''STRING'',
                                       vdirty = True, from_input = False\<rparr>)], dirty = True\<rparr>)"
  using setvar_dirty_flags [of "''FOO''" "''1''" "Some ''STRING''" no_kwargs empty_cache True
      "\<lparr>items = [(''FOO'', \<lparr>vname = ''FOO'', val = ''1'', vartype = Some ''STRING'',
                            vdirty = True, from_input = False\<rparr>)], dirty = True\<rparr>" no_kwargs]
    setvar_dirty_flags [of "''FOO''" "''2''" "Some ''STRING''" no_kwargs
      "\<lparr>items = [(''FOO'', \<lparr>vname = ''FOO'', val = ''1'', vartype = Some ''STRING'',
                            vdirty = False, from_input = False\<rparr>)], dirty = False\<rparr>" _ _ _
      "\<lparr>vname = ''FOO'', val = ''1'', vartype = Some ''STRING'',
                            vdirty = False, from_input = False\<rparr>"]
  by (simp add: setvar_def reset_def no_kwargs_def empty_cache_def Var_init_def Let_def)

subsection \<open>Raw assignments\<close>

lemma split_on_notin: "c \<notin> set a \<Longrightarrow> split_on c a = [a]"
  by (induction a) auto

lemma split_on_ne: "split_on c xs \<noteq> []"
  by (induction xs) (auto split: list.splits)

lemma split_on_app: "c \<notin> set a \<Longrightarrow> split_on c (a @ c # r) = a # split_on c r"
  by (induction a) (auto split: list.splits)

lemma concat_split_on: "concat (split_on c r) = filter (\<lambda>x. x \<noteq> c) r"
  by (induction r) (auto split: list.splits)

lemma length_split_on: "length (split_on c xs) = Suc (length (filter (\<lambda>x. x = c) xs))"
  by (induction xs) (auto split: list.splits)

lemma hd_split_on: "hd (split_on c xs) = takeWhile (\<lambda>x. x \<noteq> c) xs"
  by (induction xs) (auto simp: split_on_ne split: list.splits)


lemma length_three_or_more: "3 \<le> length xs \<Longrightarrow> \<exists>a b c ys. xs = a # b # c # ys"
  by (cases xs; cases "tl xs"; cases "tl (tl xs)") auto

lemma setvar_typed:
  "\<exists>ch c' x. setvar n v (Some t) kw c = Inr (ch, c') \<and> map_of (items c') n = Some x
      \<and> val x = v \<and> vartype x = Some t"
proof -
  obtain ch c' where r: "setvar n v (Some t) kw c = Inr (ch, c')"
    by (cases "map_of (items c) n"; cases "reset v (Some t) kw (the (map_of (items c) n))")
       (auto simp: setvar_def)
  from setvar_stores [OF r] r show ?thesis by blast
qed

lemma gather_typed:
  assumes "CHR '':'' \<notin> set n" "CHR ''='' \<notin> set n" "CHR '':'' \<notin> set t" "CHR ''='' \<notin> set t"
    and sp: "split_on CHR ''='' v = (n @ '':'' @ t) # rest"
    and vv: "(if length ((n @ '':'' @ t) # rest) > 1 then concat (drop 1 ((n @ '':'' @ t) # rest)) else []) = w"
  shows "\<exists>ch c' x. setvar n w (Some t) from_input_kw c = Inr (ch, c')
           \<and> gather_cmake_var v c = Inr c' \<and> map_of (items c') n = Some x
           \<and> val x = w \<and> vartype x = Some t"
proof -
  from setvar_typed [of n w t from_input_kw c]
  obtain ch c' x where r: "setvar n w (Some t) from_input_kw c = Inr (ch, c')"
    "map_of (items c') n = Some x" "val x = w" "vartype x = Some t" by blast
  have s2: "split_on CHR '':'' (n @ '':'' @ t) = [n, t]"
    using split_on_app [of "CHR '':''" n t] split_on_notin [of "CHR '':''" t] assms(1,3) by simp
  have "gather_cmake_var v c = Inr c'"
    unfolding gather_cmake_var_def Let_def sp vv using s2 r(1) by simp
  with r show ?thesis by blast
qed

text \<open>
  C9 (as amended). An assignment \<^verbatim>\<open>NAME:TYPE=VALUE\<close> (neither name nor type has a
  colon or an equals sign, and the value has no equals sign) stores the variable with
  that type and that value; an assignment \<^verbatim>\<open>NAME:TYPE\<close> with no equals sign is not
  refused: it stores the variable with that type and the empty value; an assignment with
  two or more colons before its first equals sign raises the exception whose message
  ends with the assignment itself.
\<close>

theorem gather_cmake_var_forms:
  "(CHR '':'' \<notin> set n \<and> CHR ''='' \<notin> set n \<and> CHR '':'' \<notin> set t \<and> CHR ''='' \<notin> set t
      \<and> CHR ''='' \<notin> set vv \<longrightarrow>
      (\<exists>ch c' x. setvar n vv (Some t) from_input_kw c = Inr (ch, c')
          \<and> gather_cmake_var (n @ '':'' @ t @ ''='' @ vv) c = Inr c'
          \<and> map_of (items c') n = Some x \<and> val x = vv \<and> vartype x = Some t))
   \<and> (CHR '':'' \<notin> set n \<and> CHR ''='' \<notin> set n \<and> CHR '':'' \<notin> set t \<and> CHR ''='' \<notin> set t \<longrightarrow>
      (\<exists>ch c' x. setvar n [] (Some t) from_input_kw c = Inr (ch, c')
          \<and> gather_cmake_var (n @ '':'' @ t) c = Inr c'
          \<and> map_of (items c') n = Some x \<and> val x = [] \<and> vartype x = Some t))
   \<and> (2 \<le> length (filter (\<lambda>x. x = CHR '':'') (takeWhile (\<lambda>x. x \<noteq> CHR ''='') v)) \<longrightarrow>
      gather_cmake_var v c = Inl (Exception (''could not parse variable value: '' @ v)))"
proof (intro conjI impI)
  assume a: "CHR '':'' \<notin> set n \<and> CHR ''='' \<notin> set n \<and> CHR '':'' \<notin> set t \<and> CHR ''='' \<notin> set t
      \<and> CHR ''='' \<notin> set vv"
  have sp: "split_on CHR ''='' (n @ '':'' @ t @ ''='' @ vv) = (n @ '':'' @ t) # [vv]"
    using split_on_app [of "CHR ''=''" "n @ '':'' @ t" vv] split_on_notin [of "CHR ''=''" vv] a
    by simp
  have vv: "(if length ((n @ '':'' @ t) # [vv]) > 1
             then concat (drop 1 ((n @ '':'' @ t) # [vv])) else []) = vv"
    by simp
  from a gather_typed [OF _ _ _ _ sp vv]
  show "\<exists>ch c' x. setvar n vv (Some t) from_input_kw c = Inr (ch, c')
          \<and> gather_cmake_var (n @ '':'' @ t @ ''='' @ vv) c = Inr c'
          \<and> map_of (items c') n = Some x \<and> val x = vv \<and> vartype x = Some t"
    by blast
next
  assume a: "CHR '':'' \<notin> set n \<and> CHR ''='' \<notin> set n \<and> CHR '':'' \<notin> set t \<and> CHR ''='' \<notin> set t"
  have sp: "split_on CHR ''='' (n @ '':'' @ t) = (n @ '':'' @ t) # []"
    using split_on_notin [of "CHR ''=''" "n @ '':'' @ t"] a by simp
  have vv: "(if length ((n @ '':'' @ t) # []) > 1
             then concat (drop 1 ((n @ '':'' @ t) # [])) else []) = ([] :: string)"
    by simp
  from a gather_typed [OF _ _ _ _ sp vv]
  show "\<exists>ch c' x. setvar n [] (Some t) from_input_kw c = Inr (ch, c')
          \<and> gather_cmake_var (n @ '':'' @ t) c = Inr c'
          \<and> map_of (items c') n = Some x \<and> val x = [] \<and> vartype x = Some t"
    by blast
next
  assume a: "2 \<le> length (filter (\<lambda>x. x = CHR '':'') (takeWhile (\<lambda>x. x \<noteq> CHR ''='') v))"
  obtain h rest where sp: "split_on CHR ''='' v = h # rest"
    using split_on_ne [of "CHR ''=''" v] by (cases "split_on CHR ''='' v") auto
  then have h: "h = takeWhile (\<lambda>x. x \<noteq> CHR ''='') v"
    using hd_split_on [of "CHR ''=''" v] by simp
  from a h have "3 \<le> length (split_on CHR '':'' h)"
    by (simp add: length_split_on)
  then obtain p1 p2 p3 ps where "split_on CHR '':'' h = p1 # p2 # p3 # ps"
    by (metis length_three_or_more)
  with sp show "gather_cmake_var v c = Inl (Exception (''could not parse variable value: '' @ v))"
    by (simp add: gather_cmake_var_def Let_def)
qed

theorem gather_cmake_var_forms_witness:
  "gather_cmake_var ''FOO:BOOL=ON'' empty_cache
     = Inr \<lparr>items = [(''FOO'', \<lparr>vname = ''FOO'', val = ''ON'', vartype = Some ''BOOL'',
                              vdirty = True, from_input = False\<rparr>)], dirty = True\<rparr>
   \<and> gather_cmake_var ''BAR:PATH'' empty_cache
     = Inr \<lparr>items = [(''BAR'', \<lparr>vname = ''BAR'', val = [], vartype = Some ''PATH'',
                              vdirty = True, from_input = False\<rparr>)], dirty = True\<rparr>
   \<and> gather_cmake_var ''A:B:C=1'' empty_cache
       = Inl (Exception ''could not parse variable value: A:B:C=1'')"
  using gather_cmake_var_forms [of "''FOO''" "''BOOL''" "''ON''" empty_cache "''A:B:C=1''"]
    gather_cmake_var_forms [of "''BAR''" "''PATH''" _ empty_cache]
  by (simp add: gather_cmake_var_def setvar_def empty_cache_def Var_init_def Let_def)

text \<open>
  C9 as the specification states it fails: an assignment without an equals sign is stored, with the
  empty value, and nothing is raised.
\<close>

theorem no_equals_counterexample:
  "gather_cmake_var ''FOO:BOOL'' empty_cache
     = Inr \<lparr>items = [(''FOO'', \<lparr>vname = ''FOO'', val = [], vartype = Some ''BOOL'',
                              vdirty = True, from_input = False\<rparr>)], dirty = True\<rparr>"
  by (simp add: gather_cmake_var_def setvar_def empty_cache_def Var_init_def Let_def)

text \<open>
  An assignment without a type reaches the call of \<^verbatim>\<open>setvar\<close> that lacks the
  \<^verbatim>\<open>vartype\<close> argument.
\<close>

lemma untyped_assignment_raises:
  "gather_cmake_var ''FOO=1'' empty_cache
     = Inl (TypeError ''setvar() missing 1 required positional argument: vartype'')"
  by (simp add: gather_cmake_var_def Let_def)

text \<open>
  The value is \<^verbatim>\<open>''.join(spl[1:])\<close>: the pieces after the first equals sign, joined
  with nothing between them.
\<close>

lemma value_joined_without_equals:
  "gather_cmake_var ''FOO:STRING=a=b'' empty_cache
     = Inr \<lparr>items = [(''FOO'', \<lparr>vname = ''FOO'', val = ''ab'', vartype = Some ''STRING'',
                              vdirty = True, from_input = False\<rparr>)], dirty = True\<rparr>"
  by (simp add: gather_cmake_var_def setvar_def empty_cache_def Var_init_def Let_def)

subsection \<open>The aggregate dirty flag\<close>

lemma update_dirty_same:
  "map_of xs k = Some x \<Longrightarrow> vdirty y = vdirty x \<Longrightarrow>
   list_ex (\<lambda>kx. vdirty (snd kx)) (AList.update k y xs) = list_ex (\<lambda>kx. vdirty (snd kx)) xs"
  by (induction xs) (auto split: if_splits)

lemma update_dirty_true:
  "vdirty y \<Longrightarrow> list_ex (\<lambda>kx. vdirty (snd kx)) (AList.update k y xs)"
  by (induction xs) auto

lemma reset_cases:
  "reset v ty kw x = (ch, y) \<Longrightarrow> (ch \<longrightarrow> vdirty y) \<and> (\<not> ch \<longrightarrow> vdirty y = vdirty x)"
  by (cases "kw_from_input kw") (auto simp: reset_def Let_def split: if_splits)

lemma setvar_inv:
  assumes "dirty c = any_dirty c" "setvar n v ty kw c = Inr (ch, c')"
  shows "dirty c' = any_dirty c'"
proof (cases "map_of (items c) n")
  case None
  with assms(2) show ?thesis
    by (cases "ty = None") (auto simp: setvar_def any_dirty_def Var_init_def update_dirty_true)
next
  case (Some x)
  obtain ch' y where r: "reset v ty kw x = (ch', y)" by (cases "reset v ty kw x")
  from assms(2) Some r have c': "c' = c\<lparr>items := AList.update n y (items c), dirty := (dirty c \<or> ch')\<rparr>"
    by (auto simp: setvar_def)
  show ?thesis
  proof (cases ch')
    case True
    with reset_cases [OF r] c' show ?thesis by (simp add: any_dirty_def update_dirty_true)
  next
    case False
    with reset_cases [OF r] c' assms(1) Some show ?thesis
      by (simp add: any_dirty_def update_dirty_same)
  qed
qed

lemma commit_inv:
  assumes "dirty c = any_dirty c" "commit bd c fs0 = Inr (r, c', fs1)"
  shows "dirty c' = any_dirty c'"
proof (cases r)
  case False
  with assms show ?thesis
    by (auto simp: commit_def split: if_splits option.splits sum.splits)
next
  case True
  with assms(2) have "c' = c\<lparr>items := map (\<lambda>(k, x). (k, x\<lparr>vdirty := False\<rparr>)) (items c), dirty := False\<rparr>"
    by (auto simp: commit_def split: if_splits option.splits sum.splits)
  then show ?thesis by (simp add: any_dirty_def list_ex_iff case_prod_beta)
qed

lemma keep_inv:
  assumes "dirty (fst cf) = any_dirty (fst cf)"
    and "\<And>ch c'. r = Inr (ch, c') \<Longrightarrow> dirty c' = any_dirty c'"
  shows "dirty (fst (keep cf r)) = any_dirty (fst (keep cf r))"
proof (cases r)
  case (Inl err)
  with assms(1) show ?thesis by (simp add: keep_def)
next
  case (Inr q)
  obtain ch c' where "q = (ch, c')" by (cases q)
  with Inr assms(2) show ?thesis by (simp add: keep_def)
qed

lemma apply_op_inv:
  assumes "dirty (fst cf) = any_dirty (fst cf)"
  shows "dirty (fst (apply_op w cf a)) = any_dirty (fst (apply_op w cf a))"
proof (cases a)
  case (Commit bd)
  show ?thesis
  proof (cases "commit bd (fst cf) (snd cf)")
    case (Inl err)
    with Commit assms show ?thesis by simp
  next
    case (Inr q)
    obtain r c' fs1 where "q = (r, c', fs1)" by (cases q)
    with Inr Commit commit_inv [OF assms, of bd "snd cf" r c' fs1] show ?thesis by simp
  qed
qed (simp_all add: assms keep_inv [OF assms] setvar_inv [OF assms]
       set_b_def set_s_def set_p_def set_f_def set_i_def)

lemma run_ops_inv:
  "dirty (fst cf) = any_dirty (fst cf) \<Longrightarrow>
   dirty (fst (foldl (apply_op w) cf ops)) = any_dirty (fst (foldl (apply_op w) cf ops))"
  by (induction ops arbitrary: cf) (auto simp: apply_op_inv)


lemma update_dirty_false:
  "\<not> vdirty y \<Longrightarrow> \<not> list_ex (\<lambda>kx. vdirty (snd kx)) xs \<Longrightarrow>
   \<not> list_ex (\<lambda>kx. vdirty (snd kx)) (AList.update k y xs)"
  by (induction xs) auto

lemma load_line_clean:
  assumes "load_line r l = Inr v"
    and "\<And>acc. r = Inr acc \<Longrightarrow> \<not> list_ex (\<lambda>kx. vdirty (snd kx)) acc"
  shows "\<not> list_ex (\<lambda>kx. vdirty (snd kx)) v"
proof (cases r)
  case (Inl err)
  with assms(1) show ?thesis by (simp add: load_line_def)
next
  case (Inr acc)
  with assms(2) have c: "\<not> list_ex (\<lambda>kx. vdirty (snd kx)) acc" by simp
  from assms(1) Inr c show ?thesis
    by (auto simp: load_line_def Var_init_def update_dirty_false split: if_splits sum.splits)
qed

lemma foldl_load_line_clean:
  "foldl load_line r ls = Inr v \<Longrightarrow>
   (\<And>acc. r = Inr acc \<Longrightarrow> \<not> list_ex (\<lambda>kx. vdirty (snd kx)) acc) \<Longrightarrow>
   \<not> list_ex (\<lambda>kx. vdirty (snd kx)) v"
proof (induction ls arbitrary: r)
  case Nil
  then show ?case by simp
next
  case (Cons l ls)
  from Cons.prems(1) have "foldl load_line (load_line r l) ls = Inr v" by simp
  then show ?case
    by (rule Cons.IH) (rule load_line_clean [OF _ Cons.prems(2)], assumption+)
qed

lemma CMakeCache_init_inv:
  assumes "CMakeCache_init bd fs0 = Inr c0"
  shows "dirty c0 = any_dirty c0"
proof -
  from assms obtain v where v: "loadvars bd fs0 = Inr v" and c0: "c0 = \<lparr>items = v, dirty = False\<rparr>"
    by (auto simp: CMakeCache_init_def split: sum.splits)
  have "\<not> list_ex (\<lambda>kx. vdirty (snd kx)) v"
  proof (cases "\<exists>d content. bd = Some d \<and> path_exists fs0 d \<and> path_exists fs0 (path_join d ''CMakeCache.txt'')
                  \<and> files fs0 (path_join d ''CMakeCache.txt'') = Some content")
    case True
    then obtain d content where "bd = Some d" "path_exists fs0 d"
      "path_exists fs0 (path_join d ''CMakeCache.txt'')"
      "files fs0 (path_join d ''CMakeCache.txt'') = Some content" by blast
    with v have "foldl load_line (Inr []) (readlines content) = Inr v"
      by (simp add: loadvars_def)
    then show ?thesis by (rule foldl_load_line_clean) simp
  next
    case False
    with v have "v = []"
      by (auto simp: loadvars_def split: option.splits if_splits)
    then show ?thesis by simp
  qed
  with c0 show ?thesis by (simp add: any_dirty_def)
qed

text \<open>
  C5. A cache as \<^verbatim>\<open>CMakeCache(builddir)\<close> constructs it, loaded from the file or
  empty, and after any sequence of \<^verbatim>\<open>setvar\<close>, typed setters and \<^verbatim>\<open>commit\<close>
  (whatever happens to the files in between), has an aggregate dirty flag equal to the
  logical or of its variables' dirty flags.
\<close>

theorem aggregate_dirty_invariant:
  "CMakeCache_init bd fs0 = Inr c0 \<longrightarrow>
     dirty (fst (foldl (apply_op w) (c0, fs0) ops))
       = any_dirty (fst (foldl (apply_op w) (c0, fs0) ops))"
  using run_ops_inv [of "(c0, fs0)" w ops] CMakeCache_init_inv [of bd fs0 c0] by simp

theorem aggregate_dirty_invariant_witness:
  "CMakeCache_init (Some ''/b'') ex_fs
     = Inr \<lparr>items = [(''FOO'', \<lparr>vname = ''FOO'', val = ''old'', vartype = Some ''STRING'',
                              vdirty = False, from_input = False\<rparr>)], dirty = False\<rparr>
   \<and> dirty (fst (foldl (apply_op False)
        (\<lparr>items = [(''FOO'', \<lparr>vname = ''FOO'', val = ''old'', vartype = Some ''STRING'',
                              vdirty = False, from_input = False\<rparr>)], dirty = False\<rparr>, ex_fs)
        [SetS ''FOO'' ''new'' no_kwargs, Commit (Some ''/b''),
         SetVar ''BAR'' ''1'' (Some ''BOOL'') no_kwargs]))
     = any_dirty (fst (foldl (apply_op False)
        (\<lparr>items = [(''FOO'', \<lparr>vname = ''FOO'', val = ''old'', vartype = Some ''STRING'',
                              vdirty = False, from_input = False\<rparr>)], dirty = False\<rparr>, ex_fs)
        [SetS ''FOO'' ''new'' no_kwargs, Commit (Some ''/b''),
         SetVar ''BAR'' ''1'' (Some ''BOOL'') no_kwargs]))"
proof -
  have h: "CMakeCache_init (Some ''/b'') ex_fs
     = Inr \<lparr>items = [(''FOO'', \<lparr>vname = ''FOO'', val = ''old'', vartype = Some ''STRING'',
                              vdirty = False, from_input = False\<rparr>)], dirty = False\<rparr>"
    by code_simp
  from aggregate_dirty_invariant [of "Some ''/b''" ex_fs _ False
      "[SetS ''FOO'' ''new'' no_kwargs, Commit (Some ''/b''),
        SetVar ''BAR'' ''1'' (Some ''BOOL'') no_kwargs]"] h
  show ?thesis by blast
qed

subsection \<open>commit\<close>

lemma isl_projl: "isl r \<and> projl r = err \<Longrightarrow> r = Inl err"
  by (cases r) auto

text \<open>
  C4, at an input where the code departs from it. The cache was loaded from
  \<^verbatim>\<open>/b/CMakeCache.txt\<close> (one line, \<^verbatim>\<open>FOO:STRING=old\<close>), then
  \<^verbatim>\<open>setvar('FOO', r'C:\games', 'STRING')\<close> made it dirty. The directory and the file
  exist, so \<^verbatim>\<open>commit('/b')\<close> should rewrite the line, clear the flags and return
  \<open>True\<close>. \<^verbatim>\<open>setcachevars\<close> hands the value to \<^verbatim>\<open>re.sub\<close> as part of the
  replacement template, where \<^verbatim>\<open>\g\<close> must start a group reference: \<^verbatim>\<open>re.sub\<close>
  raises, and \<^verbatim>\<open>commit\<close> neither writes nor clears a flag nor returns.
\<close>

theorem commit_backslash_value:
  "setvar ''FOO'' (''C:'' @ [backslash] @ ''games'') (Some ''STRING'') no_kwargs
      \<lparr>items = [(''FOO'', \<lparr>vname = ''FOO'', val = ''old'', vartype = Some ''STRING'',
                            vdirty = False, from_input = False\<rparr>)], dirty = False\<rparr>
     = Inr (True, \<lparr>items = [(''FOO'', \<lparr>vname = ''FOO'', val = ''C:'' @ [backslash] @ ''games'',
                                      vartype = Some ''STRING'', vdirty = True,
                                      from_input = False\<rparr>)], dirty = True\<rparr>)
   \<and> commit (Some ''/b'')
        \<lparr>items = [(''FOO'', \<lparr>vname = ''FOO'', val = ''C:'' @ [backslash] @ ''games'',
                              vartype = Some ''STRING'', vdirty = True, from_input = False\<rparr>)],
         dirty = True\<rparr> ex_fs
     = Inl (ReError ''missing <'')"
proof
  show "setvar ''FOO'' (''C:'' @ [backslash] @ ''games'') (Some ''STRING'') no_kwargs
      \<lparr>items = [(''FOO'', \<lparr>vname = ''FOO'', val = ''old'', vartype = Some ''STRING'',
                            vdirty = False, from_input = False\<rparr>)], dirty = False\<rparr>
     = Inr (True, \<lparr>items = [(''FOO'', \<lparr>vname = ''FOO'', val = ''C:'' @ [backslash] @ ''games'',
                                      vartype = Some ''STRING'', vdirty = True,
                                      from_input = False\<rparr>)], dirty = True\<rparr>)"
    by code_simp
  have "isl (commit (Some ''/b'')
        \<lparr>items = [(''FOO'', \<lparr>vname = ''FOO'', val = ''C:'' @ [backslash] @ ''games'',
                              vartype = Some ''STRING'', vdirty = True, from_input = False\<rparr>)],
         dirty = True\<rparr> ex_fs)
      \<and> projl (commit (Some ''/b'')
        \<lparr>items = [(''FOO'', \<lparr>vname = ''FOO'', val = ''C:'' @ [backslash] @ ''games'',
                              vartype = Some ''STRING'', vdirty = True, from_input = False\<rparr>)],
         dirty = True\<rparr> ex_fs) = ReError ''missing <''"
    by code_simp
  then show "commit (Some ''/b'')
        \<lparr>items = [(''FOO'', \<lparr>vname = ''FOO'', val = ''C:'' @ [backslash] @ ''games'',
                              vartype = Some ''STRING'', vdirty = True, from_input = False\<rparr>)],
         dirty = True\<rparr> ex_fs
     = Inl (ReError ''missing <'')"
    by (rule isl_projl)
qed

text \<open>
  From the same use of the value as a template: \<^verbatim>\<open>r'C:\tmp'\<close> is committed with a
  tab in the place of \<^verbatim>\<open>\t\<close>.
\<close>

lemma commit_writes_expanded_value:
  "files (snd (snd (projr (commit (Some ''/b'')
        \<lparr>items = [(''FOO'', \<lparr>vname = ''FOO'', val = ''C:'' @ [backslash] @ ''tmp'',
                              vartype = Some ''STRING'', vdirty = True, from_input = False\<rparr>)],
         dirty = True\<rparr> ex_fs)))) ''/b/CMakeCache.txt''
     = Some (''FOO:STRING=C:'' @ [CHR 0x09] @ ''mp'' @ [newline])"
  by code_simp

lemma commit_noop:
  "\<not> dirty c \<or> bd = None
     \<or> (\<exists>d. bd = Some d \<and> (\<not> path_exists fs0 d
                                \<or> \<not> path_exists fs0 (path_join d ''CMakeCache.txt'')))
   \<Longrightarrow> commit bd c fs0 = Inr (False, c, fs0)"
  by (auto simp: commit_def split: option.splits)

lemma expand_char:
  "c \<noteq> backslash \<Longrightarrow> expand_template gs (c # cs) = emit [c] (expand_template gs cs)"
  by simp

lemma expand_plain: "backslash \<notin> set t \<Longrightarrow> expand_template gs t = Inr t"
proof (induction t)
  case Nil
  show ?case by simp
next
  case (Cons c cs)
  then have "c \<noteq> backslash" "expand_template gs cs = Inr cs" by auto
  then show ?case by (simp add: expand_char emit_def del: expand_template.simps)
qed

lemma expand_value:
  assumes "backslash \<notin> set v"
  shows "expand_template [g0, g1, g2, g3] ([backslash, CHR ''1'', backslash, CHR ''2'', CHR ''=''] @ v)
           = Inr (g1 @ g2 @ ''='' @ v)"
  using expand_plain [OF assms, of "[g0, g1, g2, g3]"]
  by (simp add: emit_def is_digit_def digit_val_def backslash_def)

lemma re_sub_value:
  assumes "backslash \<notin> set v"
  shows "re_sub ([backslash, CHR ''1'', backslash, CHR ''2'', CHR ''=''] @ v) l
           = Inr (case match_cache_entry l of
                    None \<Rightarrow> l
                  | Some (g1, g2, g3, nl) \<Rightarrow> g1 @ g2 @ ''='' @ v @ nl)"
  using expand_value [OF assms]
  by (cases "match_cache_entry l") (auto simp: re_sub_def simp del: expand_template.simps append.simps)


lemma rewrite_line_plain:
  assumes "list_all (\<lambda>kv. backslash \<notin> set (snd kv)) kvs"
  shows "\<exists>n. rewrite_line kvs l = Inr n
           \<and> (list_all (\<lambda>kv. \<not> prefix (fst kv @ '':'') l) kvs \<longrightarrow> n = l)"
  using assms
proof (induction kvs arbitrary: l)
  case Nil
  show ?case by simp
next
  case (Cons kv kvs)
  obtain k v where kv: "kv = (k, v)" by (cases kv)
  with Cons.prems have v: "backslash \<notin> set v"
    and r: "list_all (\<lambda>kv. backslash \<notin> set (snd kv)) kvs" by simp_all
  show ?case
  proof (cases "prefix (k @ '':'') l")
    case True
    from re_sub_value [OF v, of l] obtain n where
      "re_sub ([backslash, CHR ''1'', backslash, CHR ''2'', CHR ''=''] @ v) l = Inr n" by blast
    with True kv Cons.IH [OF r, of n] show ?thesis by auto
  next
    case False
    with kv Cons.IH [OF r, of l] show ?thesis by auto
  qed
qed

lemma rewrite_lines_plain:
  assumes "list_all (\<lambda>kv. backslash \<notin> set (snd kv)) kvs"
  shows "\<exists>ns. rewrite_lines kvs ls = Inr ns \<and> length ns = length ls
           \<and> (\<forall>j < length ls. list_all (\<lambda>kv. \<not> prefix (fst kv @ '':'') (ls ! j)) kvs
                  \<longrightarrow> ns ! j = ls ! j)"
proof (induction ls)
  case Nil
  show ?case by simp
next
  case (Cons l ls)
  from rewrite_line_plain [OF assms, of l] obtain n where
    n: "rewrite_line kvs l = Inr n"
       "list_all (\<lambda>kv. \<not> prefix (fst kv @ '':'') l) kvs \<longrightarrow> n = l" by blast
  from Cons.IH obtain ns where
    ns: "rewrite_lines kvs ls = Inr ns" "length ns = length ls"
        "\<forall>j < length ls. list_all (\<lambda>kv. \<not> prefix (fst kv @ '':'') (ls ! j)) kvs
                  \<longrightarrow> ns ! j = ls ! j" by blast
  have "\<forall>j < length (l # ls). list_all (\<lambda>kv. \<not> prefix (fst kv @ '':'') ((l # ls) ! j)) kvs
                  \<longrightarrow> (n # ns) ! j = (l # ls) ! j"
  proof (intro allI impI)
    fix j assume "j < length (l # ls)"
      and "list_all (\<lambda>kv. \<not> prefix (fst kv @ '':'') ((l # ls) ! j)) kvs"
    with n(2) ns(3) show "(n # ns) ! j = (l # ls) ! j" by (cases j) auto
  qed
  with n(1) ns(1,2) show ?case by auto
qed

text \<open>
  What of C4 holds in general. Outside its guard \<^verbatim>\<open>commit\<close> returns \<open>False\<close> and
  changes nothing. Inside it, where the build directory is a directory, the cache file
  is a file and no dirty value has a backslash, it returns \<open>True\<close>, clears every dirty
  flag and the aggregate flag, and writes the file back line by line, every line that
  starts with no \<^verbatim>\<open>name:\<close> of a dirty variable as it was.
\<close>

lemma commit_rewrites:
  assumes "dirty c" "d \<in> dirs fs0" "files fs0 (path_join d ''CMakeCache.txt'') = Some content"
    and "list_all (\<lambda>kv. backslash \<notin> set (snd kv)) (dirty_values c)"
  shows "\<exists>olines. commit (Some d) c fs0
            = Inr (True,
                   c\<lparr>items := map (\<lambda>(k, x). (k, x\<lparr>vdirty := False\<rparr>)) (items c), dirty := False\<rparr>,
                   fs0\<lparr>files := (files fs0)(path_join d ''CMakeCache.txt'' \<mapsto> concat olines)\<rparr>)
          \<and> length olines = length (readlines content)
          \<and> (\<forall>j < length (readlines content).
                list_all (\<lambda>kv. \<not> prefix (fst kv @ '':'') (readlines content ! j)) (dirty_values c)
                  \<longrightarrow> olines ! j = readlines content ! j)"
proof -
  from rewrite_lines_plain [OF assms(4), of "readlines content"] obtain ns where
    ns: "rewrite_lines (dirty_values c) (readlines content) = Inr ns"
        "length ns = length (readlines content)"
        "\<forall>j < length (readlines content).
            list_all (\<lambda>kv. \<not> prefix (fst kv @ '':'') (readlines content ! j)) (dirty_values c)
              \<longrightarrow> ns ! j = readlines content ! j" by blast
  from assms(1-3) ns(1) have "commit (Some d) c fs0
            = Inr (True,
                   c\<lparr>items := map (\<lambda>(k, x). (k, x\<lparr>vdirty := False\<rparr>)) (items c), dirty := False\<rparr>,
                   fs0\<lparr>files := (files fs0)(path_join d ''CMakeCache.txt'' \<mapsto> concat ns)\<rparr>)"
    by (simp add: commit_def setcachevars_def path_exists_def)
  with ns(2,3) show ?thesis by blast
qed

lemma concat_readlines: "concat (readlines t) = t"
  by (induction t) (auto split: list.splits)

subsection \<open>What the operations leave in the state\<close>

lemma open_w_in_ok:
  "open_w_in d nm content s = (Inr u, s') \<Longrightarrow>
     d \<in> dirs (fsys s') \<and> files (fsys s') (path_join d nm) = Some content
     \<and> dirs (fsys s') = dirs (fsys s) \<and> caches s' = caches s \<and> cmdlog s' = cmdlog s
     \<and> gen_build s' = gen_build s
     \<and> (\<forall>q. q \<noteq> path_join d nm \<longrightarrow> files (fsys s') q = files (fsys s) q)"
  by (auto simp: open_w_in_def split: if_splits)

lemma open_w_in_log: "open_w_in d nm content s = (r, s') \<Longrightarrow> cmdlog s' = cmdlog s"
  by (auto simp: open_w_in_def split: if_splits)

lemma open_w_log: "open_w q content s = (r, s') \<Longrightarrow> cmdlog s' = cmdlog s"
  by (auto simp: open_w_def split: if_splits)

lemma create_dir_log: "create_dir b s = (r, s') \<Longrightarrow> cmdlog s' = cmdlog s"
  by (auto simp: create_dir_def makedirs_def split: if_splits)

lemma create_preload_file_log: "create_preload_file e b s = (r, s') \<Longrightarrow> cmdlog s' = cmdlog s"
  by (auto simp: create_preload_file_def Let_def split: prod.splits sum.splits
           dest!: create_dir_log open_w_log)

lemma handle_conan_log: "handle_conan e b s = (r, s') \<Longrightarrow> cmdlog s' = cmdlog s"
  by (auto simp: handle_conan_def Let_def split: if_splits prod.splits)

lemma mark_deps_done_log: "mark_deps_done b s = (r, s') \<Longrightarrow> cmdlog s' = cmdlog s"
  by (simp add: mark_deps_done_def open_w_in_log)

lemma mark_configure_done_log: "mark_configure_done b cmd s = (r, s') \<Longrightarrow> cmdlog s' = cmdlog s"
  by (simp add: mark_configure_done_def open_w_in_log)

lemma mark_build_done_log: "mark_build_done b cmd s = (r, s') \<Longrightarrow> cmdlog s' = cmdlog s"
  by (simp add: mark_build_done_def open_w_in_log)

lemma commit_varcache_log: "commit_varcache b s = (r, s') \<Longrightarrow> cmdlog s' = cmdlog s"
  by (auto simp: commit_varcache_def split: sum.splits)

lemma varcache_p_log: "varcache_p e b n v s = (r, s') \<Longrightarrow> cmdlog s' = cmdlog s"
  by (auto simp: varcache_p_def split: sum.splits)

lemma runsyscmd_log: "runsyscmd e cwd cmd s = (r, s') \<Longrightarrow> cmdlog s' = cmdlog s @ [(cwd, cmd)]"
  by (auto simp: runsyscmd_def Let_def split: prod.splits if_splits)

lemma runsyscmd_gen_build: "runsyscmd e cwd cmd s = (r, s') \<Longrightarrow> gen_build s' = gen_build s"
  by (auto simp: runsyscmd_def Let_def split: prod.splits if_splits)

subsection \<open>needs\_configure\<close>

lemma configure_ends_with_mark:
  "configure e b st = (Inr u, st') \<Longrightarrow>
     \<exists>cmd s. mark_configure_done b cmd s = (Inr u, st')"
  by (auto simp: configure.simps split: prod.splits sum.splits if_splits)

lemma after_configure:
  assumes "configure e b st = (Inr u, st')"
  shows "builddir b \<in> dirs (fsys st')"
    and "files (fsys st') (path_join (builddir b) ''cmany_configure.done'') \<noteq> None"
proof -
  from configure_ends_with_mark [OF assms] obtain cmd s
    where "mark_configure_done b cmd s = (Inr u, st')" by blast
  then have "open_w_in (builddir b) ''cmany_configure.done'' (join '' '' cmd @ [newline]) s = (Inr u, st')"
    by (simp add: mark_configure_done_def)
  from open_w_in_ok [OF this]
  show "builddir b \<in> dirs (fsys st')"
    and "files (fsys st') (path_join (builddir b) ''cmany_configure.done'') \<noteq> None"
    by auto
qed

lemma setvar_changed_dirty: "setvar n v ty kw c = Inr (True, c') \<Longrightarrow> dirty c'"
  by (cases "map_of (items c) n"; cases "reset v ty kw (the (map_of (items c) n))")
     (auto simp: setvar_def split: if_splits)

text \<open>
  C6 (as amended). Where the path of the build directory is not that of a file,
  \<^verbatim>\<open>needs_configure()\<close> returns whether the build directory does not exist, or the
  sentinel \<^verbatim>\<open>cmany_configure.done\<close> is not in it, or the cache file exists and the
  cache is dirty; for a build directory that does not exist it returns \<open>True\<close>. After a
  \<^verbatim>\<open>configure()\<close> that returned, it returns whether the cache file exists and the cache
  is dirty: \<open>False\<close> when the cache is clean or the file is not there, and \<open>True\<close>
  when \<^verbatim>\<open>configure()\<close> left the cache dirty beside the file; with the file there, a
  \<^verbatim>\<open>setvar\<close> that changes a variable makes it \<open>True\<close>.
\<close>

theorem needs_configure_iff:
  "((path_exists (fsys st) (builddir b) \<longrightarrow> builddir b \<in> dirs (fsys st)) \<longrightarrow>
      needs_configure b st
        = Inr (\<not> path_exists (fsys st) (builddir b)
               \<or> \<not> path_exists (fsys st) (path_join (builddir b) ''cmany_configure.done'')
               \<or> (path_exists (fsys st) (cachefile b) \<and> dirty (caches st (varcache b)))))
   \<and> (\<not> path_exists (fsys st) (builddir b) \<longrightarrow> needs_configure b st = Inr True)
   \<and> (configure e b st = (Inr u, st') \<longrightarrow>
        needs_configure b st'
          = Inr (path_exists (fsys st') (cachefile b) \<and> dirty (caches st' (varcache b)))
        \<and> (path_exists (fsys st') (cachefile b) \<longrightarrow>
             setvar n v ty kw (caches st' (varcache b)) = Inr (True, c') \<longrightarrow>
             needs_configure b (st'\<lparr>caches := (caches st')(varcache b := c')\<rparr>) = Inr True))"
proof (intro conjI impI)
  assume "path_exists (fsys st) (builddir b) \<longrightarrow> builddir b \<in> dirs (fsys st)"
  then show "needs_configure b st
        = Inr (\<not> path_exists (fsys st) (builddir b)
               \<or> \<not> path_exists (fsys st) (path_join (builddir b) ''cmany_configure.done'')
               \<or> (path_exists (fsys st) (cachefile b) \<and> dirty (caches st (varcache b))))"
    by (simp add: needs_configure_def needs_cache_regeneration_def)
next
  assume "\<not> path_exists (fsys st) (builddir b)"
  then show "needs_configure b st = Inr True" by (simp add: needs_configure_def)
next
  assume c: "configure e b st = (Inr u, st')"
  from after_configure [OF c]
  show "needs_configure b st'
          = Inr (path_exists (fsys st') (cachefile b) \<and> dirty (caches st' (varcache b)))"
    by (simp add: needs_configure_def needs_cache_regeneration_def path_exists_def)
next
  assume c: "configure e b st = (Inr u, st')"
    and x: "path_exists (fsys st') (cachefile b)"
    and s: "setvar n v ty kw (caches st' (varcache b)) = Inr (True, c')"
  from after_configure [OF c] x setvar_changed_dirty [OF s]
  show "needs_configure b (st'\<lparr>caches := (caches st')(varcache b := c')\<rparr>) = Inr True"
    by (simp add: needs_configure_def needs_cache_regeneration_def path_exists_def)
qed

theorem needs_configure_iff_witness:
  "needs_configure fresh_build fresh_state = Inr True
   \<and> fst (configure ex_env fresh_build (fresh_state\<lparr>caches := (\<lambda>_. empty_cache)\<rparr>)) = Inr ()
   \<and> needs_configure fresh_build
        (snd (configure ex_env fresh_build (fresh_state\<lparr>caches := (\<lambda>_. empty_cache)\<rparr>)))
       = Inr False
   \<and> path_exists
        (fsys (snd (configure ex_env fresh_build (fresh_state\<lparr>caches := (\<lambda>_. empty_cache)\<rparr>))))
        (cachefile fresh_build)
   \<and> needs_configure fresh_build
        ((snd (configure ex_env fresh_build (fresh_state\<lparr>caches := (\<lambda>_. empty_cache)\<rparr>)))
           \<lparr>caches := (caches (snd (configure ex_env fresh_build
                                      (fresh_state\<lparr>caches := (\<lambda>_. empty_cache)\<rparr>))))
                (varcache fresh_build :=
                   \<lparr>items = [(''FOO'', \<lparr>vname = ''FOO'', val = ''1'', vartype = Some ''STRING'',
                                         vdirty = True, from_input = False\<rparr>)],
                    dirty = True\<rparr>)\<rparr>)
       = Inr True"
proof -
  let ?st = "fresh_state\<lparr>caches := (\<lambda>_. empty_cache)\<rparr>"
  let ?c = "\<lparr>items = [(''FOO'', \<lparr>vname = ''FOO'', val = ''1'', vartype = Some ''STRING'',
                                vdirty = True, from_input = False\<rparr>)], dirty = True\<rparr>"
  have ev: "\<not> path_exists (fsys fresh_state) (builddir fresh_build)
      \<and> fst (configure ex_env fresh_build ?st) = Inr ()
      \<and> builddir fresh_build \<in> dirs (fsys (snd (configure ex_env fresh_build ?st)))
      \<and> path_exists (fsys (snd (configure ex_env fresh_build ?st))) (cachefile fresh_build)
      \<and> \<not> dirty (caches (snd (configure ex_env fresh_build ?st)) (varcache fresh_build))
      \<and> setvar ''FOO'' ''1'' (Some ''STRING'') no_kwargs
           (caches (snd (configure ex_env fresh_build ?st)) (varcache fresh_build))
         = Inr (True, ?c)"
    by code_simp
  then have c: "configure ex_env fresh_build ?st = (Inr (), snd (configure ex_env fresh_build ?st))"
    by (simp add: prod_eq_iff)
  from needs_configure_iff [of fresh_state fresh_build ex_env "()" fresh_state]
    needs_configure_iff [of "snd (configure ex_env fresh_build ?st)" fresh_build]
    needs_configure_iff [of ?st fresh_build ex_env "()" "snd (configure ex_env fresh_build ?st)"
      "''FOO''" "''1''" "Some ''STRING''" no_kwargs ?c] ev c
  show ?thesis by simp
qed

text \<open>
  C6 as the specification states it fails. In \<open>fresh_state\<close> the build directory does not exist and
  the cache holds the input variables the constructor gathered, which makes it dirty.
  \<^verbatim>\<open>configure()\<close> returns; it did not commit, because there was no cache file before
  the child process wrote one. No variable has changed since, and
  \<^verbatim>\<open>needs_configure()\<close> returns \<open>True\<close>.
\<close>

theorem fresh_configure_counterexample:
  "\<not> path_exists (fsys fresh_state) (builddir fresh_build)
   \<and> fst (configure ex_env fresh_build fresh_state) = Inr ()
   \<and> caches (snd (configure ex_env fresh_build fresh_state)) (varcache fresh_build)
       = caches fresh_state (varcache fresh_build)
   \<and> needs_configure fresh_build (snd (configure ex_env fresh_build fresh_state)) = Inr True"
  by code_simp

subsection \<open>The child processes of build\<close>

lemma handle_deps_free_log:
  "\<not> truthy (deps b) \<Longrightarrow> handle_deps e b s = (r, s') \<Longrightarrow> cmdlog s' = cmdlog s"
  by (auto simp: handle_deps.simps split: if_splits prod.splits sum.splits
           dest!: handle_conan_log mark_deps_done_log)

lemma configure_free_log:
  assumes "\<not> truthy (deps b)" "configure e b s = (r, s')"
  shows "\<exists>evs. cmdlog s' = cmdlog s @ evs \<and> list_all (\<lambda>ev. fst ev = builddir b) evs"
  using assms(2)
  by (auto simp: configure.simps split: if_splits prod.splits sum.splits
           dest!: create_dir_log create_preload_file_log handle_deps_free_log [OF assms(1)]
                  commit_varcache_log runsyscmd_log mark_configure_done_log)


lemma run_targets_log:
  "run_targets e b c0 ts s = (r, s') \<Longrightarrow>
     \<exists>evs. cmdlog s' = cmdlog s @ evs \<and> list_all (\<lambda>ev. fst ev = builddir b) evs"
proof (induction ts arbitrary: c0 s)
  case Nil
  then show ?case by simp
next
  case (Cons t ts)
  show ?case
  proof (cases "runsyscmd e (builddir b) (gen_cmd e (generator b) (gen_build s (generator b)) [t]) s")
    case (Pair r1 s1)
    note l = runsyscmd_log [OF Pair]
    show ?thesis
    proof (cases r1)
      case (Inl err)
      with Cons.prems Pair l show ?thesis by simp
    next
      case (Inr u)
      with Cons.prems Pair
      have "run_targets e b (gen_cmd e (generator b) (gen_build s (generator b)) [t]) ts s1 = (r, s')"
        by simp
      from Cons.IH [OF this] l show ?thesis by auto
    qed
  qed
qed

lemma run_targets_ok:
  "run_targets e b c0 ts s = (Inr cmd, s') \<Longrightarrow>
     cmdlog s' = cmdlog s @ map (\<lambda>t. (builddir b, gen_cmd e (generator b) (gen_build s (generator b)) [t])) ts
     \<and> gen_build s' = gen_build s
     \<and> cmd = (if ts = [] then c0 else gen_cmd e (generator b) (gen_build s (generator b)) [last ts])"
proof (induction ts arbitrary: c0 s)
  case Nil
  then show ?case by simp
next
  case (Cons t ts)
  show ?case
  proof (cases "runsyscmd e (builddir b) (gen_cmd e (generator b) (gen_build s (generator b)) [t]) s")
    case (Pair r1 s1)
    note l = runsyscmd_log [OF Pair] and g = runsyscmd_gen_build [OF Pair]
    show ?thesis
    proof (cases r1)
      case (Inl err)
      with Cons.prems Pair show ?thesis by simp
    next
      case (Inr u)
      with Cons.prems Pair
      have "run_targets e b (gen_cmd e (generator b) (gen_build s (generator b)) [t]) ts s1 = (Inr cmd, s')"
        by simp
      from Cons.IH [OF this] l g show ?thesis by auto
    qed
  qed
qed

lemma build_free_log:
  assumes "\<not> truthy (deps b)" "build e b ts s = (r, s')"
  shows "\<exists>evs. cmdlog s' = cmdlog s @ evs \<and> list_all (\<lambda>ev. fst ev = builddir b) evs"
  using assms(2)
  by (auto simp: build.simps split: if_splits prod.splits sum.splits
           dest!: create_dir_log handle_deps_free_log [OF assms(1)]
                  configure_free_log [OF assms(1)] run_targets_log mark_build_done_log)

lemma install_free_log:
  assumes "\<not> truthy (deps b)" "install e b s = (r, s')"
  shows "\<exists>evs. cmdlog s' = cmdlog s @ evs \<and> list_all (\<lambda>ev. fst ev = builddir b) evs"
  using assms(2)
  by (auto simp: install.simps split: if_splits prod.splits sum.splits
           dest!: create_dir_log build_free_log [OF assms(1)] runsyscmd_log)

lemma dup_free: "\<not> truthy (deps (dup_of b))"
  by (simp add: dup_of_def truthy_def)

lemma handle_deps_log:
  assumes "handle_deps e b s = (r, s')"
  shows "\<exists>evs. cmdlog s' = cmdlog s @ evs \<and> list_all (\<lambda>ev. fst ev = builddir (dup_of b)) evs"
proof (cases "truthy (deps b)")
  case False
  from handle_deps_free_log [OF False assms] show ?thesis by simp
next
  case True
  with assms show ?thesis
    by (auto simp: handle_deps.simps split: if_splits prod.splits sum.splits
           dest!: configure_free_log [OF dup_free] build_free_log [OF dup_free]
                  install_free_log [OF dup_free] varcache_p_log mark_deps_done_log)
qed


lemma dup_builddir_neq: "builddir (dup_of b) \<noteq> builddir b"
proof -
  have "length (path_join (builddir b) ''cmany_deps-build'') > length (builddir b)"
    by (simp add: path_join_def)
  then show ?thesis by (auto simp: dup_of_def)
qed

lemma filter_other:
  "list_all (\<lambda>ev. fst ev = d') evs \<Longrightarrow> d' \<noteq> d \<Longrightarrow> filter (\<lambda>ev. fst ev = d) evs = []"
  by (induction evs) auto

lemma default_targets_ne: "default_targets b ts \<noteq> []"
  by (simp add: default_targets_def)

lemma configure_ok_log:
  assumes "configure e b s = (Inr u, s')"
  shows "\<exists>evs s4. cmdlog s' = cmdlog s @ evs @ [(builddir b, configure_cmd e b s4)]
           \<and> list_all (\<lambda>ev. fst ev = builddir (dup_of b)) evs"
  using assms
  by (auto simp: configure.simps split: if_splits prod.splits sum.splits
           dest!: create_dir_log create_preload_file_log handle_deps_log
                  commit_varcache_log runsyscmd_log mark_configure_done_log)

lemma build_ok_decomp:
  "build e b ts s = (Inr u, s') \<Longrightarrow>
     \<exists>s1 nc s2 s3 s4 cmd. create_dir b s = (Inr (), s1) \<and> builddir b \<in> dirs (fsys s1)
        \<and> needs_configure b s1 = Inr nc
        \<and> (if nc then configure e b s1 else (Inr (), s1)) = (Inr (), s2)
        \<and> handle_deps e b s2 = (Inr (), s3)
        \<and> run_targets e b [] (default_targets b ts) s3 = (Inr cmd, s4)
        \<and> mark_build_done b cmd s4 = (Inr u, s')"
  by (auto simp: build.simps split: if_splits prod.splits sum.splits)

text \<open>
  C7. A \<^verbatim>\<open>build(targets)\<close> that returns has started, after whatever it ran before
  them, one child process for each target of the list (for the empty list:
  \<^verbatim>\<open>ALL_BUILD\<close> with a Visual Studio compiler, \<^verbatim>\<open>all\<close> otherwise), in the order of the
  list, each in the build directory with the generator's command for that one target;
  it has written the command of the last target to \<^verbatim>\<open>cmany_build.done\<close>; and of the
  child processes it ran before them, the ones in the build directory are the single
  one of \<^verbatim>\<open>configure()\<close> when \<^verbatim>\<open>needs_configure()\<close> (asked after the directory was
  created) returned \<open>True\<close>, and none when it returned \<open>False\<close>. The others are those of
  the dependency build, which run in its own directory.
\<close>

theorem build_runs:
  "(build e b targets st = (Inr u, st') \<longrightarrow>
      (\<exists>st1 nc evs s gb.
         create_dir b st = (Inr (), st1) \<and> needs_configure b st1 = Inr nc
         \<and> cmdlog st' = cmdlog st @ evs
              @ map (\<lambda>t. (builddir b, gen_cmd e (generator b) gb [t])) (default_targets b targets)
         \<and> filter (\<lambda>ev. fst ev = builddir b) evs
              = (if nc then [(builddir b, configure_cmd e b s)] else [])
         \<and> files (fsys st') (path_join (builddir b) ''cmany_build.done'')
              = Some (join '' '' (gen_cmd e (generator b) gb [last (default_targets b targets)])
                      @ [newline])))
   \<and> default_targets b [] = (if is_msvc (compiler b) then [''ALL_BUILD''] else [''all''])
   \<and> (targets \<noteq> [] \<longrightarrow> default_targets b targets = targets)"
proof (intro conjI impI)
  assume a: "build e b targets st = (Inr u, st')"
  from build_ok_decomp [OF a] obtain s1 nc s2 s3 s4 cmd where
    d: "create_dir b st = (Inr (), s1)" "needs_configure b s1 = Inr nc"
       "(if nc then configure e b s1 else (Inr (), s1)) = (Inr (), s2)"
       "handle_deps e b s2 = (Inr (), s3)"
       "run_targets e b [] (default_targets b targets) s3 = (Inr cmd, s4)"
       "mark_build_done b cmd s4 = (Inr u, st')"
    by blast
  let ?gb = "gen_build s3 (generator b)"
  from handle_deps_log [OF d(4)] obtain evd where
    evd: "cmdlog s3 = cmdlog s2 @ evd" "list_all (\<lambda>ev. fst ev = builddir (dup_of b)) evd"
    by blast
  have "\<exists>evc s. cmdlog s2 = cmdlog s1 @ evc
          \<and> filter (\<lambda>ev. fst ev = builddir b) evc
              = (if nc then [(builddir b, configure_cmd e b s)] else [])"
  proof (cases nc)
    case True
    with d(3) have "configure e b s1 = (Inr (), s2)" by simp
    from configure_ok_log [OF this] obtain evs s where
      c1: "cmdlog s2 = cmdlog s1 @ evs @ [(builddir b, configure_cmd e b s)]" and
      c2: "list_all (\<lambda>ev. fst ev = builddir (dup_of b)) evs" by blast
    from True c1 filter_other [OF c2 dup_builddir_neq] show ?thesis
      by (intro exI [of _ "evs @ [(builddir b, configure_cmd e b s)]"] exI [of _ s]) simp
  next
    case False
    with d(3) show ?thesis by simp
  qed
  then obtain evc s where evc: "cmdlog s2 = cmdlog s1 @ evc"
    "filter (\<lambda>ev. fst ev = builddir b) evc
       = (if nc then [(builddir b, configure_cmd e b s)] else [])" by blast
  from run_targets_ok [OF d(5)] default_targets_ne [of b targets]
  have rt: "cmdlog s4 = cmdlog s3 @ map (\<lambda>t. (builddir b, gen_cmd e (generator b) ?gb [t]))
                                      (default_targets b targets)"
    "cmd = gen_cmd e (generator b) ?gb [last (default_targets b targets)]"
    by simp_all
  from d(6) have "open_w_in (builddir b) ''cmany_build.done'' (join '' '' cmd @ [newline]) s4 = (Inr u, st')"
    by (simp add: mark_build_done_def)
  from open_w_in_ok [OF this]
  have m: "cmdlog st' = cmdlog s4"
    "files (fsys st') (path_join (builddir b) ''cmany_build.done'') = Some (join '' '' cmd @ [newline])"
    by auto
  from create_dir_log [OF d(1)] evc(1) evd(1) rt(1) m(1)
  have lg: "cmdlog st' = cmdlog st @ (evc @ evd)
              @ map (\<lambda>t. (builddir b, gen_cmd e (generator b) ?gb [t])) (default_targets b targets)"
    by simp
  from evc(2) filter_other [OF evd(2) dup_builddir_neq]
  have fl: "filter (\<lambda>ev. fst ev = builddir b) (evc @ evd)
              = (if nc then [(builddir b, configure_cmd e b s)] else [])"
    by simp
  from d(1,2) lg fl m(2) rt(2)
  show "\<exists>st1 nc evs s gb.
         create_dir b st = (Inr (), st1) \<and> needs_configure b st1 = Inr nc
         \<and> cmdlog st' = cmdlog st @ evs
              @ map (\<lambda>t. (builddir b, gen_cmd e (generator b) gb [t])) (default_targets b targets)
         \<and> filter (\<lambda>ev. fst ev = builddir b) evs
              = (if nc then [(builddir b, configure_cmd e b s)] else [])
         \<and> files (fsys st') (path_join (builddir b) ''cmany_build.done'')
              = Some (join '' '' (gen_cmd e (generator b) gb [last (default_targets b targets)])
                      @ [newline])"
    by blast
next
  show "default_targets b [] = (if is_msvc (compiler b) then [''ALL_BUILD''] else [''all''])"
    by (simp add: default_targets_def)
next
  assume "targets \<noteq> []"
  then show "default_targets b targets = targets" by (simp add: default_targets_def)
qed

theorem build_runs_witness:
  "fst (build ex_env fresh_build [] fresh_state) = Inr ()
   \<and> cmdlog (snd (build ex_env fresh_build [] fresh_state))
       = [(builddir fresh_build, configure_cmd ex_env fresh_build fresh_state),
          (builddir fresh_build, [''make'', ''-j'', ''4'', ''all''])]
   \<and> fst (build ex_env fresh_build [''a'', ''b''] fresh_state) = Inr ()
   \<and> cmdlog (snd (build ex_env fresh_build [''a'', ''b''] fresh_state))
       = [(builddir fresh_build, configure_cmd ex_env fresh_build fresh_state),
          (builddir fresh_build, [''make'', ''-j'', ''4'', ''a'']),
          (builddir fresh_build, [''make'', ''-j'', ''4'', ''b''])]
   \<and> files (fsys (snd (build ex_env fresh_build [''a'', ''b''] fresh_state)))
         (path_join (builddir fresh_build) ''cmany_build.done'')
       = Some (''make -j 4 b'' @ [newline])"
proof -
  have ev: "fst (build ex_env fresh_build [] fresh_state) = Inr ()
   \<and> cmdlog (snd (build ex_env fresh_build [] fresh_state))
       = [(builddir fresh_build, configure_cmd ex_env fresh_build fresh_state),
          (builddir fresh_build, [''make'', ''-j'', ''4'', ''all''])]
   \<and> fst (build ex_env fresh_build [''a'', ''b''] fresh_state) = Inr ()
   \<and> cmdlog (snd (build ex_env fresh_build [''a'', ''b''] fresh_state))
       = [(builddir fresh_build, configure_cmd ex_env fresh_build fresh_state),
          (builddir fresh_build, [''make'', ''-j'', ''4'', ''a'']),
          (builddir fresh_build, [''make'', ''-j'', ''4'', ''b''])]
   \<and> files (fsys (snd (build ex_env fresh_build [''a'', ''b''] fresh_state)))
         (path_join (builddir fresh_build) ''cmany_build.done'')
       = Some (''make -j 4 b'' @ [newline])"
    by code_simp
  then have h: "build ex_env fresh_build [''a'', ''b''] fresh_state
      = (Inr (), snd (build ex_env fresh_build [''a'', ''b''] fresh_state))"
    by (simp add: prod_eq_iff)
  from build_runs [of ex_env fresh_build "[''a'', ''b'']" fresh_state "()"
      "snd (build ex_env fresh_build [''a'', ''b''] fresh_state)"] h ev
  show ?thesis by blast
qed

subsection \<open>Dependencies\<close>

lemma mark_deps_done_ok:
  assumes "mark_deps_done b s = (Inr u, s')"
  shows "deps_done b s'" and "caches s' = caches s"
proof -
  from assms obtain content where
    "open_w_in (builddir b) ''cmany_deps.done'' content s = (Inr u, s')"
    by (simp add: mark_deps_done_def)
  from open_w_in_ok [OF this] show "deps_done b s'" and "caches s' = caches s"
    by (auto simp: deps_done_def path_exists_def)
qed

lemma varcache_p_ok:
  assumes "varcache_p e b n v s = (Inr r, s')"
  shows "\<exists>x. map_of (items (caches s' (varcache b))) n = Some x
             \<and> val x = (if in_windows e then slashes v else v) \<and> vartype x = Some ''PATH''"
proof -
  from assms obtain c' where
    sv: "setvar n (if in_windows e then slashes v else v) (Some ''PATH'') no_kwargs
           (caches s (varcache b)) = Inr (r, c')"
    and s': "s' = s\<lparr>caches := (caches s)(varcache b := c')\<rparr>"
    by (auto simp: varcache_p_def set_p_def split: sum.splits)
  from setvar_stores [OF sv] s' show ?thesis by simp
qed

lemma varcache_p_total: "\<exists>r s'. varcache_p e b n v s = (Inr r, s') \<and> fsys s' = fsys s"
proof -
  have "\<exists>r c'. setvar n (if in_windows e then slashes v else v) (Some ''PATH'') no_kwargs
           (caches s (varcache b)) = Inr (r, c')"
    by (cases "map_of (items (caches s (varcache b))) n";
        cases "reset (if in_windows e then slashes v else v) (Some ''PATH'') no_kwargs
                 (the (map_of (items (caches s (varcache b))) n))")
       (auto simp: setvar_def)
  then show ?thesis by (auto simp: varcache_p_def set_p_def)
qed

lemma handle_deps_ok_decomp:
  assumes "truthy (deps b)" "\<not> deps_done b st" "handle_deps e b st = (Inr u, st')"
  shows "\<exists>s1 s2 r3 s3 r4 s4.
      configure e (dup_of b) (st\<lparr>gen_build := (gen_build st)(generator b := dup_of b)\<rparr>) = (Inr (), s1)
      \<and> build e (dup_of b) [] s1 = (Inr (), s2)
      \<and> install e (dup_of b) s2 = (r3, s3)
      \<and> varcache_p e b ''CMAKE_PREFIX_PATH'' (installdir b) s3 = (Inr r4, s4)
      \<and> mark_deps_done b s4 = (Inr u, st')"
  using assms
  by (auto simp: handle_deps.simps split: prod.splits sum.splits)

lemma handle_deps_copy:
  "handle_deps e (dup_of b) s =
     (if deps_done (dup_of b) s then (Inr (), s)
      else case handle_conan e (dup_of b) s of
             (Inl err, s1) \<Rightarrow> (Inl err, s1)
           | (Inr _, s1) \<Rightarrow> mark_deps_done (dup_of b) s1)"
  using dup_free [of b] by (simp add: handle_deps.simps)

lemma mark_deps_done_state:
  assumes "mark_deps_done b s = (Inr u, s')"
  shows "cmdlog s' = cmdlog s" "caches s' = caches s" "gen_build s' = gen_build s"
    "dirs (fsys s') = dirs (fsys s)"
    "files (fsys s') = (files (fsys s))(path_join (builddir b) ''cmany_deps.done'' \<mapsto>
        (case deps b of None \<Rightarrow> [] | Some d \<Rightarrow> if d \<noteq> [] then d @ [newline] else [])
        @ (case deps_prefix b of None \<Rightarrow> [] | Some d \<Rightarrow> if d \<noteq> [] then d @ [newline] else []))"
  using assms by (auto simp: mark_deps_done_def open_w_in_def split: if_splits)

text \<open>
  C8. The copy has no dependency source, so \<^verbatim>\<open>handle_deps\<close> on the copy makes no
  further copy and runs no \<^verbatim>\<open>configure\<close>, \<^verbatim>\<open>build\<close> or \<^verbatim>\<open>install\<close>: it returns
  at once where the sentinel of the copy is present, and is \<^verbatim>\<open>handle_conan\<close> followed
  by \<^verbatim>\<open>mark_deps_done\<close> otherwise. With a dependency source path and no sentinel, a
  \<^verbatim>\<open>handle_deps\<close> that returned has run, each on the state the one before it left:
  \<^verbatim>\<open>configure\<close> on the copy, with the generator pointed at the copy, and \<^verbatim>\<open>build\<close>
  on the copy, both without an exception; \<^verbatim>\<open>install\<close> on the copy, whatever that
  raised or returned; the setter \<^verbatim>\<open>p\<close> for \<^verbatim>\<open>CMAKE_PREFIX_PATH\<close> on the cache of the
  build; and \<^verbatim>\<open>mark_deps_done\<close>, which leaves the state \<^verbatim>\<open>handle_deps\<close> leaves. That
  state has the child processes, the generator pointers, the directories and the files of
  the state \<^verbatim>\<open>install\<close> left, with the sentinel \<^verbatim>\<open>cmany_deps.done\<close> added to the
  files of the build directory (it holds the dependency source and prefix paths); every
  cache but that of the build is as \<^verbatim>\<open>install\<close> left it, and the cache of the build
  holds \<^verbatim>\<open>CMAKE_PREFIX_PATH\<close>, of type \<^verbatim>\<open>PATH\<close>, with the build's own install
  directory as its value (with slashes for backslashes where \<^verbatim>\<open>util.in_windows()\<close>
  holds, as the setter \<^verbatim>\<open>p\<close> stores every path). An exception of \<^verbatim>\<open>configure\<close> or
  of \<^verbatim>\<open>build\<close> on the copy is the exception of \<^verbatim>\<open>handle_deps\<close>, with the state it
  left. Whatever \<^verbatim>\<open>install\<close> on the copy raised or returned, the setter then returns
  and \<^verbatim>\<open>handle_deps\<close> is \<^verbatim>\<open>mark_deps_done\<close> on the state the setter left; it
  returns where the build directory is there. With the sentinel present
  \<^verbatim>\<open>handle_deps\<close> returns at once and changes nothing.
\<close>

theorem handle_deps_steps:
  "deps (dup_of b) = None
   \<and> handle_deps e (dup_of b) s =
       (if deps_done (dup_of b) s then (Inr (), s)
        else case handle_conan e (dup_of b) s of
               (Inl err, s1) \<Rightarrow> (Inl err, s1)
             | (Inr _, s1) \<Rightarrow> mark_deps_done (dup_of b) s1)
   \<and> (truthy (deps b) \<longrightarrow> \<not> deps_done b st \<longrightarrow> handle_deps e b st = (Inr u, st') \<longrightarrow>
        (\<exists>s1 s2 r3 s3 r4 s4.
           configure e (dup_of b) (st\<lparr>gen_build := (gen_build st)(generator b := dup_of b)\<rparr>)
             = (Inr (), s1)
           \<and> build e (dup_of b) [] s1 = (Inr (), s2)
           \<and> install e (dup_of b) s2 = (r3, s3)
           \<and> varcache_p e b ''CMAKE_PREFIX_PATH'' (installdir b) s3 = (Inr r4, s4)
           \<and> mark_deps_done b s4 = (Inr u, st')
           \<and> cmdlog st' = cmdlog s3 \<and> gen_build st' = gen_build s3
           \<and> dirs (fsys st') = dirs (fsys s3)
           \<and> files (fsys st') = (files (fsys s3))(path_join (builddir b) ''cmany_deps.done'' \<mapsto>
                (case deps b of None \<Rightarrow> [] | Some d \<Rightarrow> if d \<noteq> [] then d @ [newline] else [])
                @ (case deps_prefix b of None \<Rightarrow> []
                   | Some d \<Rightarrow> if d \<noteq> [] then d @ [newline] else []))
           \<and> (\<forall>k. k \<noteq> varcache b \<longrightarrow> caches st' k = caches s3 k)
           \<and> setvar ''CMAKE_PREFIX_PATH''
                (if in_windows e then slashes (installdir b) else installdir b) (Some ''PATH'')
                no_kwargs (caches s3 (varcache b)) = Inr (r4, caches st' (varcache b)))
        \<and> (\<exists>x. map_of (items (caches st' (varcache b))) ''CMAKE_PREFIX_PATH'' = Some x
               \<and> val x = (if in_windows e then slashes (installdir b) else installdir b)
               \<and> vartype x = Some ''PATH'')
        \<and> deps_done b st')
   \<and> (truthy (deps b) \<longrightarrow> \<not> deps_done b st \<longrightarrow>
        configure e (dup_of b) (st\<lparr>gen_build := (gen_build st)(generator b := dup_of b)\<rparr>)
          = (Inl err, s1) \<longrightarrow>
        handle_deps e b st = (Inl err, s1))
   \<and> (truthy (deps b) \<longrightarrow> \<not> deps_done b st \<longrightarrow>
        configure e (dup_of b) (st\<lparr>gen_build := (gen_build st)(generator b := dup_of b)\<rparr>)
          = (Inr (), s1) \<longrightarrow>
        build e (dup_of b) [] s1 = (Inl err, s2) \<longrightarrow>
        handle_deps e b st = (Inl err, s2))
   \<and> (truthy (deps b) \<longrightarrow> \<not> deps_done b st \<longrightarrow>
        configure e (dup_of b) (st\<lparr>gen_build := (gen_build st)(generator b := dup_of b)\<rparr>)
          = (Inr (), s1) \<longrightarrow>
        build e (dup_of b) [] s1 = (Inr (), s2) \<longrightarrow>
        install e (dup_of b) s2 = (r3, s3) \<longrightarrow>
        (\<exists>r4 s4. varcache_p e b ''CMAKE_PREFIX_PATH'' (installdir b) s3 = (Inr r4, s4)
           \<and> handle_deps e b st = mark_deps_done b s4
           \<and> (builddir b \<in> dirs (fsys s3) \<longrightarrow>
              path_join (builddir b) ''cmany_deps.done'' \<notin> dirs (fsys s3) \<longrightarrow>
              fst (handle_deps e b st) = Inr ())))
   \<and> (deps_done b st \<longrightarrow> handle_deps e b st = (Inr (), st))"
proof (intro conjI impI)
  show "deps (dup_of b) = None" by (simp add: dup_of_def)
next
  show "handle_deps e (dup_of b) s =
       (if deps_done (dup_of b) s then (Inr (), s)
        else case handle_conan e (dup_of b) s of
               (Inl err, s1) \<Rightarrow> (Inl err, s1)
             | (Inr _, s1) \<Rightarrow> mark_deps_done (dup_of b) s1)"
    by (rule handle_deps_copy)
next
  assume a: "truthy (deps b)" "\<not> deps_done b st" "handle_deps e b st = (Inr u, st')"
  from handle_deps_ok_decomp [OF a] obtain s1 s2 r3 s3 r4 s4 where
    d: "configure e (dup_of b) (st\<lparr>gen_build := (gen_build st)(generator b := dup_of b)\<rparr>) = (Inr (), s1)"
       "build e (dup_of b) [] s1 = (Inr (), s2)"
       "install e (dup_of b) s2 = (r3, s3)"
       "varcache_p e b ''CMAKE_PREFIX_PATH'' (installdir b) s3 = (Inr r4, s4)"
       "mark_deps_done b s4 = (Inr u, st')"
    by blast
  note m = mark_deps_done_state [OF d(5)]
  from d(4) obtain c' where
    sv: "setvar ''CMAKE_PREFIX_PATH'' (if in_windows e then slashes (installdir b) else installdir b)
           (Some ''PATH'') no_kwargs (caches s3 (varcache b)) = Inr (r4, c')"
    and s4: "s4 = s3\<lparr>caches := (caches s3)(varcache b := c')\<rparr>"
    by (auto simp: varcache_p_def set_p_def split: sum.splits)
  from s4 m have f: "cmdlog st' = cmdlog s3" "gen_build st' = gen_build s3"
    "dirs (fsys st') = dirs (fsys s3)"
    "files (fsys st') = (files (fsys s3))(path_join (builddir b) ''cmany_deps.done'' \<mapsto>
                (case deps b of None \<Rightarrow> [] | Some d \<Rightarrow> if d \<noteq> [] then d @ [newline] else [])
                @ (case deps_prefix b of None \<Rightarrow> []
                   | Some d \<Rightarrow> if d \<noteq> [] then d @ [newline] else []))"
    "\<forall>k. k \<noteq> varcache b \<longrightarrow> caches st' k = caches s3 k"
    "caches st' (varcache b) = c'"
    by simp_all
  from d f(1-5) sv f(6)
  show "\<exists>s1 s2 r3 s3 r4 s4.
           configure e (dup_of b) (st\<lparr>gen_build := (gen_build st)(generator b := dup_of b)\<rparr>)
             = (Inr (), s1)
           \<and> build e (dup_of b) [] s1 = (Inr (), s2)
           \<and> install e (dup_of b) s2 = (r3, s3)
           \<and> varcache_p e b ''CMAKE_PREFIX_PATH'' (installdir b) s3 = (Inr r4, s4)
           \<and> mark_deps_done b s4 = (Inr u, st')
           \<and> cmdlog st' = cmdlog s3 \<and> gen_build st' = gen_build s3
           \<and> dirs (fsys st') = dirs (fsys s3)
           \<and> files (fsys st') = (files (fsys s3))(path_join (builddir b) ''cmany_deps.done'' \<mapsto>
                (case deps b of None \<Rightarrow> [] | Some d \<Rightarrow> if d \<noteq> [] then d @ [newline] else [])
                @ (case deps_prefix b of None \<Rightarrow> []
                   | Some d \<Rightarrow> if d \<noteq> [] then d @ [newline] else []))
           \<and> (\<forall>k. k \<noteq> varcache b \<longrightarrow> caches st' k = caches s3 k)
           \<and> setvar ''CMAKE_PREFIX_PATH''
                (if in_windows e then slashes (installdir b) else installdir b) (Some ''PATH'')
                no_kwargs (caches s3 (varcache b)) = Inr (r4, caches st' (varcache b))"
    by (intro exI [of _ s1] exI [of _ s2] exI [of _ r3] exI [of _ s3] exI [of _ r4] exI [of _ s4])
       simp
  from varcache_p_ok [OF d(4)] mark_deps_done_ok(2) [OF d(5)]
  show "\<exists>x. map_of (items (caches st' (varcache b))) ''CMAKE_PREFIX_PATH'' = Some x
               \<and> val x = (if in_windows e then slashes (installdir b) else installdir b)
               \<and> vartype x = Some ''PATH''" by simp
  from mark_deps_done_ok(1) [OF d(5)] show "deps_done b st'" .
next
  assume "truthy (deps b)" "\<not> deps_done b st"
    "configure e (dup_of b) (st\<lparr>gen_build := (gen_build st)(generator b := dup_of b)\<rparr>)
          = (Inl err, s1)"
  then show "handle_deps e b st = (Inl err, s1)" by (simp add: handle_deps.simps)
next
  assume "truthy (deps b)" "\<not> deps_done b st"
    "configure e (dup_of b) (st\<lparr>gen_build := (gen_build st)(generator b := dup_of b)\<rparr>)
          = (Inr (), s1)"
    "build e (dup_of b) [] s1 = (Inl err, s2)"
  then show "handle_deps e b st = (Inl err, s2)" by (simp add: handle_deps.simps)
next
  assume a: "truthy (deps b)" "\<not> deps_done b st"
    and c: "configure e (dup_of b) (st\<lparr>gen_build := (gen_build st)(generator b := dup_of b)\<rparr>)
          = (Inr (), s1)"
    and bl: "build e (dup_of b) [] s1 = (Inr (), s2)"
    and i: "install e (dup_of b) s2 = (r3, s3)"
  from varcache_p_total [of e b "''CMAKE_PREFIX_PATH''" "installdir b" s3]
  obtain r4 s4 where v: "varcache_p e b ''CMAKE_PREFIX_PATH'' (installdir b) s3 = (Inr r4, s4)"
    "fsys s4 = fsys s3" by blast
  from a c bl i v(1) have h: "handle_deps e b st = mark_deps_done b s4"
    by (simp add: handle_deps.simps)
  have "builddir b \<in> dirs (fsys s3) \<longrightarrow>
        path_join (builddir b) ''cmany_deps.done'' \<notin> dirs (fsys s3) \<longrightarrow>
        fst (handle_deps e b st) = Inr ()"
    using h v(2) by (simp add: mark_deps_done_def open_w_in_def)
  with v(1) h
  show "\<exists>r4 s4. varcache_p e b ''CMAKE_PREFIX_PATH'' (installdir b) s3 = (Inr r4, s4)
           \<and> handle_deps e b st = mark_deps_done b s4
           \<and> (builddir b \<in> dirs (fsys s3) \<longrightarrow>
              path_join (builddir b) ''cmany_deps.done'' \<notin> dirs (fsys s3) \<longrightarrow>
              fst (handle_deps e b st) = Inr ())"
    by blast
next
  assume "deps_done b st"
  then show "handle_deps e b st = (Inr (), st)" by (simp add: handle_deps.simps)
qed



theorem handle_deps_steps_witness:
  "truthy (deps deps_build) \<and> \<not> deps_done deps_build deps_state
   \<and> fst (handle_deps no_install_env deps_build deps_state) = Inr ()
   \<and> fst (install no_install_env (dup_of deps_build)
        (snd (build no_install_env (dup_of deps_build) []
           (snd (configure no_install_env (dup_of deps_build)
              (deps_state\<lparr>gen_build := (gen_build deps_state)(generator deps_build := dup_of deps_build)\<rparr>))))))
       = Inl (CmdFailed [''cmake'', ''--build'', ''.'', ''--target'', ''install''])
   \<and> cmdlog (snd (handle_deps no_install_env deps_build deps_state))
       = [(builddir (dup_of deps_build),
           [''cmake'', ''-C'', preload_file (dup_of deps_build)]
             @ gen_configure_args no_install_env 0 (dup_of deps_build) @ [''/deps'']),
          (builddir (dup_of deps_build), [''make'', ''-j'', ''4'', ''all'']),
          (builddir (dup_of deps_build), [''cmake'', ''--build'', ''.'', ''--target'', ''install''])]
   \<and> files (fsys (snd (handle_deps no_install_env deps_build deps_state)))
         (path_join (builddir deps_build) ''cmany_deps.done'')
       = Some (''/deps'' @ [newline] @ builddir deps_build @ [newline])
   \<and> map_option val (map_of (items (caches (snd (handle_deps no_install_env deps_build deps_state))
                                      (varcache deps_build))) ''CMAKE_PREFIX_PATH'')
       = Some (installdir deps_build)
   \<and> deps_done deps_build (snd (handle_deps no_install_env deps_build deps_state))
   \<and> handle_deps no_install_env deps_build deps_state
       = mark_deps_done deps_build
           (snd (varcache_p no_install_env deps_build ''CMAKE_PREFIX_PATH'' (installdir deps_build)
              (snd (install no_install_env (dup_of deps_build)
                 (snd (build no_install_env (dup_of deps_build) []
                    (snd (configure no_install_env (dup_of deps_build)
                       (deps_state\<lparr>gen_build := (gen_build deps_state)(generator deps_build := dup_of deps_build)\<rparr>)))))))))
   \<and> handle_deps no_install_env deps_build (snd (handle_deps no_install_env deps_build deps_state))
       = (Inr (), snd (handle_deps no_install_env deps_build deps_state))
   \<and> handle_deps no_configure_env deps_build deps_state
       = (Inl (CmdFailed ([''cmake'', ''-C'', preload_file (dup_of deps_build)]
                @ gen_configure_args no_configure_env 0 (dup_of deps_build) @ [''/deps''])),
          snd (configure no_configure_env (dup_of deps_build)
                 (deps_state\<lparr>gen_build := (gen_build deps_state)(generator deps_build := dup_of deps_build)\<rparr>)))
   \<and> handle_deps no_build_env deps_build deps_state
       = (Inl (CmdFailed [''make'', ''-j'', ''4'', ''all'']),
          snd (build no_build_env (dup_of deps_build) []
            (snd (configure no_build_env (dup_of deps_build)
               (deps_state\<lparr>gen_build := (gen_build deps_state)(generator deps_build := dup_of deps_build)\<rparr>)))))"
proof -
  let ?st' = "snd (handle_deps no_install_env deps_build deps_state)"
  let ?st0 = "deps_state\<lparr>gen_build := (gen_build deps_state)(generator deps_build := dup_of deps_build)\<rparr>"
  let ?c = "configure no_install_env (dup_of deps_build) ?st0"
  let ?b = "build no_install_env (dup_of deps_build) [] (snd ?c)"
  let ?i = "install no_install_env (dup_of deps_build) (snd ?b)"
  let ?cc = "configure no_configure_env (dup_of deps_build) ?st0"
  let ?cb = "configure no_build_env (dup_of deps_build) ?st0"
  let ?bb = "build no_build_env (dup_of deps_build) [] (snd ?cb)"
  have e1: "truthy (deps deps_build)" by code_simp
  have e2: "\<not> deps_done deps_build deps_state" by code_simp
  have e3: "fst (handle_deps no_install_env deps_build deps_state) = Inr ()" by code_simp
  have e4: "fst ?i = Inl (CmdFailed [''cmake'', ''--build'', ''.'', ''--target'', ''install''])"
    by code_simp
  have e5: "cmdlog ?st'
       = [(builddir (dup_of deps_build),
           [''cmake'', ''-C'', preload_file (dup_of deps_build)]
             @ gen_configure_args no_install_env 0 (dup_of deps_build) @ [''/deps'']),
          (builddir (dup_of deps_build), [''make'', ''-j'', ''4'', ''all'']),
          (builddir (dup_of deps_build), [''cmake'', ''--build'', ''.'', ''--target'', ''install''])]"
    by code_simp
  have e6: "files (fsys ?st') (path_join (builddir deps_build) ''cmany_deps.done'')
       = Some (''/deps'' @ [newline] @ builddir deps_build @ [newline])"
    by code_simp
  have e7: "map_option val (map_of (items (caches ?st' (varcache deps_build))) ''CMAKE_PREFIX_PATH'')
       = Some (installdir deps_build)"
    by code_simp
  have e8: "deps_done deps_build ?st'" by code_simp
  have ec: "fst ?c = Inr ()" by code_simp
  have eb: "fst ?b = Inr ()" by code_simp
  have ecc: "fst ?cc = Inl (CmdFailed ([''cmake'', ''-C'', preload_file (dup_of deps_build)]
                @ gen_configure_args no_configure_env 0 (dup_of deps_build) @ [''/deps'']))"
    by code_simp
  have ecb: "fst ?cb = Inr ()" by code_simp
  have ebb: "fst ?bb = Inl (CmdFailed [''make'', ''-j'', ''4'', ''all''])" by code_simp
  from ec have c: "?c = (Inr (), snd ?c)" by (simp add: prod_eq_iff)
  from eb have b: "?b = (Inr (), snd ?b)" by (simp add: prod_eq_iff)
  have i: "?i = (fst ?i, snd ?i)" by simp
  from ecc have cc: "?cc = (Inl (CmdFailed ([''cmake'', ''-C'', preload_file (dup_of deps_build)]
                @ gen_configure_args no_configure_env 0 (dup_of deps_build) @ [''/deps''])), snd ?cc)"
    by (simp add: prod_eq_iff)
  from ecb have cb: "?cb = (Inr (), snd ?cb)" by (simp add: prod_eq_iff)
  from ebb have bb: "?bb = (Inl (CmdFailed [''make'', ''-j'', ''4'', ''all'']), snd ?bb)"
    by (simp add: prod_eq_iff)
  note steps = handle_deps_steps [where b = deps_build and e = no_install_env]
  from steps [where st = deps_state, THEN conjunct2, THEN conjunct2, THEN conjunct2,
      THEN conjunct2, THEN conjunct2, THEN conjunct1, rule_format, OF e1 e2 c b i]
  obtain r4 s4 where
    v: "varcache_p no_install_env deps_build ''CMAKE_PREFIX_PATH'' (installdir deps_build) (snd ?i)
          = (Inr r4, s4)"
    and m: "handle_deps no_install_env deps_build deps_state = mark_deps_done deps_build s4"
    by (elim exE conjE)
  from v have "s4 = snd (varcache_p no_install_env deps_build ''CMAKE_PREFIX_PATH''
                       (installdir deps_build) (snd ?i))" by simp
  with m have e9: "handle_deps no_install_env deps_build deps_state
       = mark_deps_done deps_build
           (snd (varcache_p no_install_env deps_build ''CMAKE_PREFIX_PATH'' (installdir deps_build)
              (snd ?i)))" by (simp only:)
  have e10: "handle_deps no_install_env deps_build ?st' = (Inr (), ?st')"
    by (rule steps [where st = ?st', THEN conjunct2, THEN conjunct2, THEN conjunct2,
      THEN conjunct2, THEN conjunct2, THEN conjunct2, rule_format, OF e8])
  have e11: "handle_deps no_configure_env deps_build deps_state
       = (Inl (CmdFailed ([''cmake'', ''-C'', preload_file (dup_of deps_build)]
                @ gen_configure_args no_configure_env 0 (dup_of deps_build) @ [''/deps''])), snd ?cc)"
    by (rule handle_deps_steps [where b = deps_build and e = no_configure_env and st = deps_state,
      THEN conjunct2, THEN conjunct2, THEN conjunct2, THEN conjunct1, rule_format, OF e1 e2 cc])
  have e12: "handle_deps no_build_env deps_build deps_state
       = (Inl (CmdFailed [''make'', ''-j'', ''4'', ''all'']), snd ?bb)"
    by (rule handle_deps_steps [where b = deps_build and e = no_build_env and st = deps_state,
      THEN conjunct2, THEN conjunct2, THEN conjunct2, THEN conjunct2, THEN conjunct1,
      rule_format, OF e1 e2 cb bb])
  from e1 e2 e3 e4 e5 e6 e7 e8 e9 e10 e11 e12 show ?thesis by (intro conjI)
qed

subsection \<open>The copy of the dependency build\<close>

lemma path_join_rel_length:
  "x \<noteq> [] \<Longrightarrow> hd x \<noteq> CHR ''/'' \<Longrightarrow>
   length a + length x \<le> length (path_join a x) \<and> length (path_join a x) \<le> length a + length x + 1"
  by (simp add: path_join_def)

lemma commit_varcache_clears:
  assumes "commit_varcache b st = (Inr True, st')"
  shows "\<not> dirty (caches st' (varcache b))"
    and "\<not> list_ex (\<lambda>kx. vdirty (snd kx)) (items (caches st' (varcache b)))"
proof -
  from assms obtain c' fs' where
    c: "commit (Some (builddir b)) (caches st (varcache b)) (fsys st) = Inr (True, c', fs')"
    and s: "st' = st\<lparr>fsys := fs', caches := (caches st)(varcache b := c')\<rparr>"
    by (auto simp: commit_varcache_def split: sum.splits)
  from c have "c' = (caches st (varcache b))\<lparr>items := map (\<lambda>(k, x). (k, x\<lparr>vdirty := False\<rparr>))
                        (items (caches st (varcache b))), dirty := False\<rparr>"
    by (auto simp: commit_def split: if_splits option.splits sum.splits)
  with s show "\<not> dirty (caches st' (varcache b))"
    and "\<not> list_ex (\<lambda>kx. vdirty (snd kx)) (items (caches st' (varcache b)))"
    by (simp_all add: list_ex_iff case_prod_beta)
qed

text \<open>
  C10. The copy holds the references of the build to its cache and its generator and
  the same flag sets. Its build directory is the subdirectory \<^verbatim>\<open>cmany_deps-build\<close>,
  but its \<^verbatim>\<open>cachefile\<close> is still the one \<^verbatim>\<open>_set_paths\<close> computed for the build,
  which is not the cache file of the copy's own build directory. So the copy asks for
  a regeneration of the cache exactly when the build does, a \<^verbatim>\<open>commit\<close> through the
  copy clears the dirty flags of the build's cache, and a variable set through the
  copy is there in the build's cache.
\<close>

theorem dup_shares:
  "varcache (dup_of b) = varcache b \<and> generator (dup_of b) = generator b
   \<and> flags (dup_of b) = flags b \<and> system_flags (dup_of b) = system_flags b
   \<and> architecture_flags (dup_of b) = architecture_flags b
   \<and> compiler_flags (dup_of b) = compiler_flags b
   \<and> buildtype_flags (dup_of b) = buildtype_flags b
   \<and> variant_flags (dup_of b) = variant_flags b
   \<and> builddir (dup_of b) = path_join (builddir b) ''cmany_deps-build''
   \<and> cachefile (dup_of b) = cachefile b
   \<and> cachefile (dup_of (set_paths abspath b0))
       = path_join (builddir (set_paths abspath b0)) ''CMakeCache.txt''
   \<and> cachefile (dup_of (set_paths abspath b0))
       \<noteq> path_join (builddir (dup_of (set_paths abspath b0))) ''CMakeCache.txt''
   \<and> needs_cache_regeneration (dup_of b) st = needs_cache_regeneration b st
   \<and> (commit_varcache (dup_of b) st = (Inr True, st') \<longrightarrow>
        \<not> dirty (caches st' (varcache b))
        \<and> \<not> list_ex (\<lambda>kx. vdirty (snd kx)) (items (caches st' (varcache b))))
   \<and> (varcache_p e (dup_of b) n v st = (Inr r, st') \<longrightarrow>
        (\<exists>x. map_of (items (caches st' (varcache b))) n = Some x
            \<and> val x = (if in_windows e then slashes v else v)))"
proof -
  have v: "varcache (dup_of b) = varcache b" by (simp add: dup_of_def)
  let ?bd = "builddir (set_paths abspath b0)"
  have l1: "length (path_join ?bd ''CMakeCache.txt'') \<le> length ?bd + 15"
    using path_join_rel_length [of "''CMakeCache.txt''" ?bd] by simp
  have l2: "length ?bd + 16 \<le> length (path_join ?bd ''cmany_deps-build'')"
    using path_join_rel_length [of "''cmany_deps-build''" ?bd] by simp
  have l3: "length (path_join ?bd ''cmany_deps-build'') + 14
              \<le> length (path_join (path_join ?bd ''cmany_deps-build'') ''CMakeCache.txt'')"
    using path_join_rel_length [of "''CMakeCache.txt''" "path_join ?bd ''cmany_deps-build''"] by simp
  from l1 l2 l3 have "length (path_join ?bd ''CMakeCache.txt'')
      < length (path_join (path_join ?bd ''cmany_deps-build'') ''CMakeCache.txt'')"
    by linarith
  then have ne: "path_join ?bd ''CMakeCache.txt''
      \<noteq> path_join (path_join ?bd ''cmany_deps-build'') ''CMakeCache.txt''"
    by auto
  have cf: "cachefile (dup_of (set_paths abspath b0)) = path_join ?bd ''CMakeCache.txt''"
    by (simp add: dup_of_def set_paths_def Let_def)
  have bd: "builddir (dup_of (set_paths abspath b0)) = path_join ?bd ''cmany_deps-build''"
    by (simp add: dup_of_def)
  from ne cf bd have ne': "cachefile (dup_of (set_paths abspath b0))
       \<noteq> path_join (builddir (dup_of (set_paths abspath b0))) ''CMakeCache.txt''"
    by simp
  have simple: "varcache (dup_of b) = varcache b \<and> generator (dup_of b) = generator b
   \<and> flags (dup_of b) = flags b \<and> system_flags (dup_of b) = system_flags b
   \<and> architecture_flags (dup_of b) = architecture_flags b
   \<and> compiler_flags (dup_of b) = compiler_flags b
   \<and> buildtype_flags (dup_of b) = buildtype_flags b
   \<and> variant_flags (dup_of b) = variant_flags b
   \<and> builddir (dup_of b) = path_join (builddir b) ''cmany_deps-build''
   \<and> cachefile (dup_of b) = cachefile b"
    by (simp add: dup_of_def)
  have ncr: "needs_cache_regeneration (dup_of b) st = needs_cache_regeneration b st"
    by (simp add: needs_cache_regeneration_def dup_of_def)
  have cm: "commit_varcache (dup_of b) st = (Inr True, st') \<longrightarrow>
        \<not> dirty (caches st' (varcache b))
        \<and> \<not> list_ex (\<lambda>kx. vdirty (snd kx)) (items (caches st' (varcache b)))"
    using commit_varcache_clears [of "dup_of b" st st'] v by simp
  have vp: "varcache_p e (dup_of b) n v st = (Inr r, st') \<longrightarrow>
        (\<exists>x. map_of (items (caches st' (varcache b))) n = Some x
            \<and> val x = (if in_windows e then slashes v else v))"
    using varcache_p_ok [of e "dup_of b" n v st r st'] v by auto
  from simple cf ne' ncr cm vp show ?thesis by blast
qed


theorem dup_shares_witness:
  "dirty (caches redo_state (varcache deps_build))
   \<and> needs_cache_regeneration (dup_of deps_build) redo_state
   \<and> files (fsys redo_state) (path_join (builddir (dup_of deps_build)) ''CMakeCache.txt'')
       = Some (''CMAKE_BUILD_TYPE:STRING=MinSizeRel'' @ [newline])
   \<and> fst (commit_varcache (dup_of deps_build) redo_state) = Inr True
   \<and> files (fsys (snd (commit_varcache (dup_of deps_build) redo_state)))
         (path_join (builddir (dup_of deps_build)) ''CMakeCache.txt'')
       = Some (''CMAKE_BUILD_TYPE:STRING=Release'' @ [newline])
   \<and> \<not> dirty (caches (snd (commit_varcache (dup_of deps_build) redo_state)) (varcache deps_build))
   \<and> fst (configure ex_env (dup_of deps_build) redo_state) = Inr ()
   \<and> \<not> dirty (caches (snd (configure ex_env (dup_of deps_build) redo_state))
                 (varcache deps_build))"
proof -
  have ev: "dirty (caches redo_state (varcache deps_build))
   \<and> needs_cache_regeneration (dup_of deps_build) redo_state
   \<and> files (fsys redo_state) (path_join (builddir (dup_of deps_build)) ''CMakeCache.txt'')
       = Some (''CMAKE_BUILD_TYPE:STRING=MinSizeRel'' @ [newline])
   \<and> fst (commit_varcache (dup_of deps_build) redo_state) = Inr True
   \<and> files (fsys (snd (commit_varcache (dup_of deps_build) redo_state)))
         (path_join (builddir (dup_of deps_build)) ''CMakeCache.txt'')
       = Some (''CMAKE_BUILD_TYPE:STRING=Release'' @ [newline])
   \<and> fst (configure ex_env (dup_of deps_build) redo_state) = Inr ()
   \<and> \<not> dirty (caches (snd (configure ex_env (dup_of deps_build) redo_state))
                 (varcache deps_build))"
    by code_simp
  then have h: "commit_varcache (dup_of deps_build) redo_state
      = (Inr True, snd (commit_varcache (dup_of deps_build) redo_state))"
    by (simp add: prod_eq_iff)
  from dup_shares [of deps_build _ _ redo_state
      "snd (commit_varcache (dup_of deps_build) redo_state)"] h ev
  show ?thesis by blast
qed

end
